theory Spec2Isabelle
  imports Complex_Main "HOL-Library.Word"
begin

unbundle bit_operations_syntax

section \<open>Basic types\<close>

type_synonym byte = "8 word"
type_synonym uint32 = "32 word"
type_synonym uint64 = "64 word"

section \<open>Packet types and the port-number table (internal/meshtastic/packet.go)\<close>

text \<open>The constants of Go type \<open>PacketType\<close>, in \<open>iota\<close> order; \<open>PacketTypeUnknown\<close> is the zero value.\<close>

datatype PacketType =
    PacketTypeUnknown
  | PacketTypePosition
  | PacketTypeText
  | PacketTypeTelemetry
  | PacketTypeNodeInfo
  | PacketTypeRouting
  | PacketTypeAdmin
  | PacketTypeRangeTest
  | PacketTypeNeighborInfo
  | PacketTypeDetectionSensor
  | PacketTypeRemoteHardware
  | PacketTypeReplyApp
  | PacketTypeIpTunnelApp
  | PacketTypeSerialApp
  | PacketTypeStoreForwardApp
  | PacketTypeRangeTestApp
  | PacketTypeTelemetryApp
  | PacketTypeZpsApp
  | PacketTypeSimulatorApp
  | PacketTypeTracerouteApp

text \<open>The map literal \<open>PortNumToPacketType\<close>, entry by entry.\<close>

definition PortNumToPacketType :: "uint32 \<rightharpoonup> PacketType" where
  "PortNumToPacketType = map_of
     [(0, PacketTypeUnknown),
      (1, PacketTypeText),
      (2, PacketTypeRemoteHardware),
      (3, PacketTypePosition),
      (4, PacketTypeNodeInfo),
      (5, PacketTypeRouting),
      (6, PacketTypeAdmin),
      (7, PacketTypeText),
      (8, PacketTypePosition),
      (9, PacketTypeUnknown),
      (10, PacketTypeDetectionSensor),
      (11, PacketTypeText),
      (12, PacketTypeUnknown),
      (32, PacketTypeReplyApp),
      (33, PacketTypeIpTunnelApp),
      (34, PacketTypeUnknown),
      (64, PacketTypeSerialApp),
      (65, PacketTypeStoreForwardApp),
      (66, PacketTypeRangeTest),
      (67, PacketTypeTelemetry),
      (68, PacketTypeZpsApp),
      (69, PacketTypeSimulatorApp),
      (70, PacketTypeTracerouteApp),
      (71, PacketTypeNeighborInfo),
      (224, PacketTypeReplyApp),
      (256, PacketTypeReplyApp)]"

text \<open>
  The lookup at the end of \<open>parseDataMessage\<close>:
  \<^verbatim>\<open>if packetType, exists := PortNumToPacketType[portnum]; exists { packet.Type = packetType }
  else { packet.Type = PacketTypeUnknown }\<close>
\<close>

definition mapPortNum :: "uint32 \<Rightarrow> PacketType" where
  "mapPortNum portnum =
     (case PortNumToPacketType portnum of Some packetType \<Rightarrow> packetType | None \<Rightarrow> PacketTypeUnknown)"

section \<open>Frame synchronizer (package tcp)\<close>

definition START1 :: byte where "START1 = 0x94"
definition START2 :: byte where "START2 = 0xC3"
definition HEADER_LEN :: nat where "HEADER_LEN = 4"
definition MAX_TO_FROM_RADIO_SIZE :: int where "MAX_TO_FROM_RADIO_SIZE = 512"

text \<open>\<^verbatim>\<open>packetLen := (int(c.rxBuf[2]) << 8) + int(c.rxBuf[3])\<close>; only evaluated on buffers of
  at least four bytes.\<close>

definition packetLen :: "byte list \<Rightarrow> int" where
  "packetLen rxBuf = push_bit 8 (uint (rxBuf ! 2)) + uint (rxBuf ! 3)"

text \<open>
  \<open>Connection.processByte\<close>. The state is the receive buffer \<open>rxBuf\<close>. The result is the new
  buffer, the payload handed to \<open>handler\<close> (if the handler was called), and the returned
  \<open>error\<close> (\<open>None\<close> is Go's \<open>nil\<close>). An error returned by the handler is only logged.
\<close>

definition processByte :: "byte \<Rightarrow> byte list \<Rightarrow> byte list \<times> byte list option \<times> string option" where
  "processByte b rxBuf0 =
     (let ptr = length rxBuf0;
          rxBuf = rxBuf0 @ [b]
      in if ptr = 0 then
           (if b \<noteq> START1 then ([], None, None) else (rxBuf, None, None))
         else if ptr = 1 then
           (if b \<noteq> START2 then ([], None, None) else (rxBuf, None, None))
         else if ptr \<ge> HEADER_LEN - 1 then
           (if ptr = HEADER_LEN - 1 \<and> packetLen rxBuf > MAX_TO_FROM_RADIO_SIZE then ([], None, None)
            else if int (length rxBuf) \<ge> packetLen rxBuf + int HEADER_LEN then
              ([], Some (take (nat (packetLen rxBuf)) (drop HEADER_LEN rxBuf)), None)
            else (rxBuf, None, None))
         else (rxBuf, None, None))"

text \<open>
  The loop of \<open>Connection.streamReader\<close> over the bytes read from the connection: each byte
  goes through \<open>processByte\<close>. The result is the final buffer, the payloads handed to the
  handler in order, and the errors \<open>processByte\<close> returned (the loop logs them).
\<close>

fun streamReader :: "byte list \<Rightarrow> byte list \<Rightarrow> byte list \<times> byte list list \<times> string list" where
  "streamReader [] rxBuf = (rxBuf, [], [])"
| "streamReader (b # bs) rxBuf =
     (case processByte b rxBuf of
        (rxBuf', out, err) \<Rightarrow>
          (case streamReader bs rxBuf' of
             (rxBuf'', outs, errs) \<Rightarrow>
               (rxBuf'', (case out of None \<Rightarrow> [] | Some p \<Rightarrow> [p]) @ outs,
                (case err of None \<Rightarrow> [] | Some e \<Rightarrow> [e]) @ errs)))"

text \<open>
  The bytes \<open>Connection.sendToRadio\<close> writes for a payload: the four-byte header
  \<^verbatim>\<open>START1, START2, byte((bufLen >> 8) & 0xFF), byte(bufLen & 0xFF)\<close> followed by the payload.
\<close>

definition sendToRadio :: "byte list \<Rightarrow> byte list" where
  "sendToRadio toRadioBytes =
     (let bufLen = int (length toRadioBytes)
      in [START1, START2, word_of_int ((drop_bit 8 bufLen) AND 0xFF), word_of_int (bufLen AND 0xFF)]
         @ toRadioBytes)"


section \<open>Wire decoder (internal/meshtastic/packet.go)\<close>

text \<open>
  Go run-time panics are values: a result of type \<open>panic + 'a\<close> is \<open>Inl\<close> when the code
  panics. Go's \<open>int\<close> is taken to be 64 bits wide; \<open>int64\<close> wraps a mathematical integer
  into that range, and \<open>sint\<close> reads a \<open>uint64\<close> the way the conversion \<open>int(length)\<close> does.
\<close>

datatype panic = IndexOutOfRange | SliceBoundsOutOfRange

definition int64 :: "int \<Rightarrow> int" where
  "int64 x = sint (word_of_int x :: 64 word)"

text \<open>
  The loop of \<open>readVarint\<close>; \<open>result\<close>, \<open>shift\<close> and \<open>current\<close> are its variables.
  \<open>data[current]\<close> panics for a negative index. The failure result is \<open>(0, -1)\<close>.
\<close>

function readVarint_loop :: "byte list \<Rightarrow> uint64 \<Rightarrow> nat \<Rightarrow> int \<Rightarrow> panic + (uint64 \<times> int)" where
  "readVarint_loop data result shift current =
     (if current < int (length data) then
        (if current < 0 then Inl IndexOutOfRange
         else
           let b = data ! nat current;
               current' = current + 1;
               result' = result OR push_bit shift (ucast (b AND 0x7F))
           in if b AND 0x80 = 0 then Inr (result', current')
              else
                let shift' = shift + 7
                in if shift' \<ge> 64 then Inr (0, -1)
                   else readVarint_loop data result' shift' current')
      else Inr (0, -1))"
  by pat_completeness auto
termination
  by (relation "measure (\<lambda>(data, result, shift, current). nat (int (length data) - current))") auto

definition readVarint :: "byte list \<Rightarrow> int \<Rightarrow> panic + (uint64 \<times> int)" where
  "readVarint data offset = readVarint_loop data 0 0 offset"

text \<open>\<open>skipPositionField\<close>. Every addition is an addition of Go \<open>int\<close> values and wraps:
  \<open>offset + 8\<close>, \<open>offset + 4\<close> and \<open>newOffset + int(length)\<close>.\<close>

definition skipPositionField :: "byte list \<Rightarrow> int \<Rightarrow> int \<Rightarrow> panic + int" where
  "skipPositionField data offset wireType =
     (if wireType = 0 then
        (case readVarint data offset of
           Inl e \<Rightarrow> Inl e
         | Inr (_, newOffset) \<Rightarrow> Inr newOffset)
      else if wireType = 1 then Inr (int64 (offset + 8))
      else if wireType = 2 then
        (case readVarint data offset of
           Inl e \<Rightarrow> Inl e
         | Inr (len, newOffset) \<Rightarrow>
             if newOffset = -1 then Inr (-1) else Inr (int64 (newOffset + sint len)))
      else if wireType = 5 then Inr (int64 (offset + 4))
      else Inr (-1))"

text \<open>\<open>Connection.appendVarint\<close> (package tcp), the encoder the client uses for what it sends.\<close>

function appendVarint :: "byte list \<Rightarrow> uint64 \<Rightarrow> byte list" where
  "appendVarint data v =
     (if v \<ge> 0x80 then appendVarint (data @ [ucast (v AND 0x7F OR 0x80)]) (drop_bit 7 v)
      else data @ [ucast (v AND 0x7F)])"
  by pat_completeness auto
termination
proof (relation "measure (\<lambda>(data, v). unat v)")
  show "wf (measure (\<lambda>(data, v). unat v))" by simp
next
  fix data :: "byte list" and v :: uint64
  assume "0x80 \<le> v"
  then have "128 \<le> unat v" by (simp add: word_le_nat_alt)
  then have "unat v div 128 < unat v" by simp
  then show "((data @ [ucast (v AND 0x7F OR 0x80)], drop_bit 7 v), (data, v)) \<in> measure (\<lambda>(data, v). unat v)"
    by (simp add: unat_drop_bit_eq drop_bit_eq_div unat_div)
qed

section \<open>Message interpreters (internal/meshtastic/packet.go)\<close>

text \<open>A Go \<open>string\<close> is a byte sequence; \<open>string(bytes)\<close> keeps the bytes.\<close>

definition string_of_bytes :: "byte list \<Rightarrow> string" where
  "string_of_bytes bs = map (\<lambda>b. char_of (unat b)) bs"

text \<open>The slice expression \<open>data[lo:hi]\<close>, used where \<open>hi \<le> len(data)\<close> has been checked.\<close>

definition slice :: "byte list \<Rightarrow> int \<Rightarrow> int \<Rightarrow> panic + byte list" where
  "slice data lo hi =
     (if 0 \<le> lo \<and> lo \<le> hi \<and> hi \<le> int (length data)
      then Inr (take (nat (hi - lo)) (drop (nat lo) data))
      else Inl SliceBoundsOutOfRange)"

record UserData =
  u_ID :: string
  u_LongName :: string
  u_ShortName :: string
  u_MacAddr :: "byte list"
  u_HwModel :: int
  u_IsLicensed :: bool
  u_Role :: uint32
  u_PublicKey :: "byte list"
  u_IsUnmessagable :: "bool option"

text \<open>The zero value \<open>&UserData{}\<close>.\<close>

definition emptyUserData :: UserData where
  "emptyUserData = \<lparr>u_ID = [], u_LongName = [], u_ShortName = [], u_MacAddr = [], u_HwModel = 0,
     u_IsLicensed = False, u_Role = 0, u_PublicKey = [], u_IsUnmessagable = None\<rparr>"

text \<open>
  The block shared by the three string cases of \<open>parseUserMessage\<close>:
  \<^verbatim>\<open>length, newOffset := readVarint(data, offset)
  if newOffset != -1 && newOffset+int(length) <= len(data) {
      field = string(data[newOffset:newOffset+int(length)]); offset = newOffset + int(length)
  } else { offset = len(data) }\<close>
  It yields the string (if one was read) and the new offset.
\<close>

definition readStringField :: "byte list \<Rightarrow> int \<Rightarrow> panic + (string option \<times> int)" where
  "readStringField data offset =
     (case readVarint data offset of
        Inl e \<Rightarrow> Inl e
      | Inr (len, newOffset) \<Rightarrow>
          if newOffset \<noteq> -1 \<and> int64 (newOffset + sint len) \<le> int (length data) then
            (case slice data newOffset (int64 (newOffset + sint len)) of
               Inl e \<Rightarrow> Inl e
             | Inr s \<Rightarrow> Inr (Some (string_of_bytes s), int64 (newOffset + sint len)))
          else Inr (None, int (length data)))"

text \<open>One iteration of the loop of \<open>parseUserMessage\<close>, up to the test \<open>offset == -1\<close>:
  the tag byte, then the \<open>switch\<close> on the field number.\<close>

definition parseUserMessage_step :: "byte list \<Rightarrow> UserData \<Rightarrow> int \<Rightarrow> panic + (UserData \<times> int)" where
  "parseUserMessage_step data userData offset0 =
     (if offset0 < 0 then Inl IndexOutOfRange
      else
        let tag = data ! nat offset0;
            fieldNumber = drop_bit 3 tag;
            wireType = tag AND 0x07;
            offset = offset0 + 1
        in if fieldNumber = 1 then
             (if wireType = 2 then
                (case readStringField data offset of
                   Inl e \<Rightarrow> Inl e
                 | Inr (Some s, offset') \<Rightarrow> Inr (userData\<lparr>u_ID := s\<rparr>, offset')
                 | Inr (None, offset') \<Rightarrow> Inr (userData, offset'))
              else map_sum id (Pair userData) (skipPositionField data offset (uint wireType)))
           else if fieldNumber = 2 then
             (if wireType = 2 then
                (case readStringField data offset of
                   Inl e \<Rightarrow> Inl e
                 | Inr (Some s, offset') \<Rightarrow> Inr (userData\<lparr>u_LongName := s\<rparr>, offset')
                 | Inr (None, offset') \<Rightarrow> Inr (userData, offset'))
              else map_sum id (Pair userData) (skipPositionField data offset (uint wireType)))
           else if fieldNumber = 3 then
             (if wireType = 2 then
                (case readStringField data offset of
                   Inl e \<Rightarrow> Inl e
                 | Inr (Some s, offset') \<Rightarrow> Inr (userData\<lparr>u_ShortName := s\<rparr>, offset')
                 | Inr (None, offset') \<Rightarrow> Inr (userData, offset'))
              else map_sum id (Pair userData) (skipPositionField data offset (uint wireType)))
           else map_sum id (Pair userData) (skipPositionField data offset (uint wireType)))"

text \<open>
  The loop \<open>for offset < len(data) { ...; if offset == -1 { break } }\<close>. The loop need not
  terminate (a skipped length-delimited field whose length converts to a negative \<open>int\<close>
  moves the offset backwards), so the result is an option: \<open>None\<close> when it runs forever.
\<close>

partial_function (option) parseUserMessage_loop :: "byte list \<Rightarrow> UserData \<Rightarrow> int \<Rightarrow> (panic + UserData) option" where
  "parseUserMessage_loop data userData offset =
     (if offset < int (length data) then
        (case parseUserMessage_step data userData offset of
           Inl e \<Rightarrow> Some (Inl e)
         | Inr (userData', offset') \<Rightarrow>
             if offset' = -1 then Some (Inr userData')
             else parseUserMessage_loop data userData' offset')
      else Some (Inr userData))"

declare parseUserMessage_loop.simps [code]

text \<open>\<open>parseUserMessage\<close>: \<open>Inr None\<close> is the \<open>nil\<close> result.\<close>

definition parseUserMessage :: "byte list \<Rightarrow> (panic + UserData option) option" where
  "parseUserMessage data =
     (if length data < 2 then Some (Inr None)
      else map_option (map_sum id Some) (parseUserMessage_loop data emptyUserData 0))"


text \<open>\<open>RemoteHardwareMessage\<close>; \<open>rh_Type\<close> holds the \<open>RemoteHardwareType\<close> number.\<close>

record RemoteHardwareMessage =
  rh_Type :: uint32
  GpioMask :: uint64
  GpioValue :: uint64

text \<open>One iteration of the loop of \<open>parseRemoteHardwareMessage\<close>, up to the test
  \<open>offset == -1\<close>.\<close>

definition parseRemoteHardwareMessage_step ::
    "byte list \<Rightarrow> RemoteHardwareMessage \<Rightarrow> int \<Rightarrow> panic + (RemoteHardwareMessage \<times> int)" where
  "parseRemoteHardwareMessage_step data hw offset0 =
     (if offset0 < 0 then Inl IndexOutOfRange
      else
        let tag = data ! nat offset0;
            fieldNumber = drop_bit 3 tag;
            wireType = tag AND 0x07;
            offset = offset0 + 1
        in if fieldNumber = 1 then
             (if wireType = 0 then
                (case readVarint data offset of
                   Inl e \<Rightarrow> Inl e
                 | Inr (v, newOffset) \<Rightarrow>
                     Inr (if newOffset \<noteq> -1 then hw\<lparr>rh_Type := ucast v\<rparr> else hw, newOffset))
              else map_sum id (Pair hw) (skipPositionField data offset (uint wireType)))
           else if fieldNumber = 2 then
             (if wireType = 0 then
                (case readVarint data offset of
                   Inl e \<Rightarrow> Inl e
                 | Inr (v, newOffset) \<Rightarrow>
                     Inr (if newOffset \<noteq> -1 then hw\<lparr>GpioMask := v\<rparr> else hw, newOffset))
              else map_sum id (Pair hw) (skipPositionField data offset (uint wireType)))
           else if fieldNumber = 3 then
             (if wireType = 0 then
                (case readVarint data offset of
                   Inl e \<Rightarrow> Inl e
                 | Inr (v, newOffset) \<Rightarrow>
                     Inr (if newOffset \<noteq> -1 then hw\<lparr>GpioValue := v\<rparr> else hw, newOffset))
              else map_sum id (Pair hw) (skipPositionField data offset (uint wireType)))
           else map_sum id (Pair hw) (skipPositionField data offset (uint wireType)))"

partial_function (option) parseRemoteHardwareMessage_loop ::
    "byte list \<Rightarrow> RemoteHardwareMessage \<Rightarrow> int \<Rightarrow> (panic + RemoteHardwareMessage) option" where
  "parseRemoteHardwareMessage_loop data hw offset =
     (if offset < int (length data) then
        (case parseRemoteHardwareMessage_step data hw offset of
           Inl e \<Rightarrow> Some (Inl e)
         | Inr (hw', offset') \<Rightarrow>
             if offset' = -1 then Some (Inr hw')
             else parseRemoteHardwareMessage_loop data hw' offset')
      else Some (Inr hw))"

declare parseRemoteHardwareMessage_loop.simps [code]

definition parseRemoteHardwareMessage :: "byte list \<Rightarrow> (panic + RemoteHardwareMessage option) option" where
  "parseRemoteHardwareMessage data =
     (if length data < 2 then Some (Inr None)
      else map_option (map_sum id Some)
             (parseRemoteHardwareMessage_loop data \<lparr>rh_Type = 0, GpioMask = 0, GpioValue = 0\<rparr> 0))"

section \<open>The type \<open>float32\<close>\<close>

text \<open>
  A \<open>float32\<close> is an IEEE 754 binary32 value: a finite number (held as the real number it
  denotes; \<open>Finite 0\<close> is the positive zero, \<open>NegZero\<close> the negative one), an infinity or a
  not-a-number (all not-a-number bit patterns are one value here). The zero value of the
  type is the positive zero.
\<close>

datatype float32 = Finite real | NegZero | PosInf | NegInf | NaN

instantiation float32 :: zero
begin
definition zero_float32 :: float32 where "zero_float32 = Finite 0"
instance ..
end

text \<open>
  \<open>math.Float32frombits\<close>: bit 31 is the sign, bits 23 to 30 the biased exponent, bits 0
  to 22 the fraction. Exponent 255 is an infinity (fraction 0) or a not-a-number, exponent 0
  a zero or a subnormal number.
\<close>

definition Float32frombits :: "uint32 \<Rightarrow> float32" where
  "Float32frombits b =
     (let negative = bit b 31;
          e = unat (drop_bit 23 b AND 0xFF);
          m = unat (b AND 0x7FFFFF)
      in if e = 255 then (if m = 0 then (if negative then NegInf else PosInf) else NaN)
         else if e = 0 \<and> m = 0 then (if negative then NegZero else Finite 0)
         else
           let mag = (if e = 0 then real m / 2 ^ 149 else real (2 ^ 23 + m) * 2 ^ e / 2 ^ 150)
           in Finite (if negative then - mag else mag))"

text \<open>The comparison \<open>x == 0\<close> on \<open>float32\<close>: true for both zeros, false for a not-a-number.\<close>

definition f32_eq0 :: "float32 \<Rightarrow> bool" where
  "f32_eq0 x \<longleftrightarrow> x = Finite 0 \<or> x = NegZero"

text \<open>
  The arithmetic of \<open>float32\<close> operands. \<open>fround\<close> is the rounding of IEEE 754 (to nearest,
  ties to even) from an exact non-zero result to \<open>float32\<close>; it yields an infinity on
  overflow and a zero on underflow. It is a parameter of every function that computes
  with \<open>float32\<close>. \<open>f32_add\<close> is \<open>x + y\<close>: a not-a-number operand and the sum of opposite
  infinities give a not-a-number, an exact sum of zero is the positive zero unless both
  operands are the negative zero. \<open>f32_div2\<close> is \<open>x / 2\<close>. \<open>float32_of_int32\<close> is the
  conversion \<open>float32(n)\<close> of an \<open>int32\<close>.
\<close>

definition f32_val :: "float32 \<Rightarrow> real" where
  "f32_val x = (case x of Finite r \<Rightarrow> r | _ \<Rightarrow> 0)"

definition f32_add :: "(real \<Rightarrow> float32) \<Rightarrow> float32 \<Rightarrow> float32 \<Rightarrow> float32" where
  "f32_add fround x y =
     (if x = NaN \<or> y = NaN then NaN
      else if x = PosInf then (if y = NegInf then NaN else PosInf)
      else if x = NegInf then (if y = PosInf then NaN else NegInf)
      else if y = PosInf then PosInf
      else if y = NegInf then NegInf
      else if x = NegZero \<and> y = NegZero then NegZero
      else if f32_val x + f32_val y = 0 then Finite 0
      else fround (f32_val x + f32_val y))"

definition f32_div2 :: "(real \<Rightarrow> float32) \<Rightarrow> float32 \<Rightarrow> float32" where
  "f32_div2 fround x =
     (case x of
        Finite r \<Rightarrow> if r = 0 then Finite 0 else fround (r / 2)
      | _ \<Rightarrow> x)"

definition float32_of_int32 :: "(real \<Rightarrow> float32) \<Rightarrow> 32 word \<Rightarrow> float32" where
  "float32_of_int32 fround n = (if n = 0 then Finite 0 else fround (real_of_int (sint n)))"

section \<open>Packets (internal/meshtastic/packet.go)\<close>

text \<open>
  \<open>Position\<close> and \<open>Telemetry\<close> are the structs generated from the protocol definition
  (package \<open>pb\<close>); they are decoded by \<open>proto.Unmarshal\<close> of the protobuf library. Both are
  type parameters (\<open>'pos\<close> and \<open>'tel\<close>), and the two decoders \<open>parsePositionMessage\<close> and
  \<open>parseTelemetryMessage\<close> (which return \<open>nil\<close> exactly when \<open>proto.Unmarshal\<close> returns an
  error) are parameters.
\<close>

record TextData =
  Text :: string
  Category :: string
  Details :: "string \<rightharpoonup> string"

text \<open>The dynamic value of \<open>Packet.DecodedData\<close>: one constructor for each pointer type that
  \<open>decodePayload\<close> stores; the pointer itself may be \<open>nil\<close> (\<open>None\<close>).\<close>

datatype ('pos, 'tel) decoded =
    DText TextData
  | DPosition "'pos option"
  | DTelemetry "'tel option"
  | DUser "UserData option"
  | DRemoteHardware "RemoteHardwareMessage option"

text \<open>\<open>Packet\<close>. \<open>p_RxTime\<close> is a time stamp, \<open>p_RxSNR\<close> a \<open>float32\<close>, \<open>p_RxRSSI\<close> an \<open>int32\<close>
  (read with \<open>sint\<close>); \<open>p_DecodedData = None\<close> is the \<open>nil\<close> interface.\<close>

record ('pos, 'tel) Packet =
  p_ID :: uint32
  p_From :: uint32
  p_To :: uint32
  p_Type :: PacketType
  p_Channel :: byte
  p_HopCount :: byte
  p_HopLimit :: byte
  p_WantAck :: bool
  p_Priority :: byte
  p_RxTime :: int
  p_RxSNR :: float32
  p_RxRSSI :: "32 word"
  p_Payload :: "byte list"
  p_DecodedData :: "('pos, 'tel) decoded option"
  p_Raw :: "byte list"

text \<open>The zero value \<open>Packet{}\<close> with the two fields the parsers set at construction.\<close>

definition newPacket :: "int \<Rightarrow> byte list \<Rightarrow> ('pos, 'tel) Packet" where
  "newPacket rxTime raw =
     \<lparr>p_ID = 0, p_From = 0, p_To = 0, p_Type = PacketTypeUnknown, p_Channel = 0, p_HopCount = 0,
      p_HopLimit = 0, p_WantAck = False, p_Priority = 0, p_RxTime = rxTime, p_RxSNR = 0,
      p_RxRSSI = 0, p_Payload = [], p_DecodedData = None, p_Raw = raw\<rparr>"

text \<open>\<open>decodePayload\<close>. The text case cuts the payload at the first zero byte.\<close>

definition decodePayload ::
    "(byte list \<Rightarrow> 'pos option) \<Rightarrow> (byte list \<Rightarrow> 'tel option) \<Rightarrow>
     PacketType \<Rightarrow> byte list \<Rightarrow> (panic + ('pos, 'tel) decoded option) option" where
  "decodePayload parsePositionMessage parseTelemetryMessage packetType payload =
     (case packetType of
        PacketTypeText \<Rightarrow>
          Some (Inr (Some (DText \<lparr>Text = string_of_bytes (takeWhile (\<lambda>b. b \<noteq> 0) payload),
                                    Category = [], Details = Map.empty\<rparr>)))
      | PacketTypePosition \<Rightarrow> Some (Inr (Some (DPosition (parsePositionMessage payload))))
      | PacketTypeTelemetry \<Rightarrow> Some (Inr (Some (DTelemetry (parseTelemetryMessage payload))))
      | PacketTypeNodeInfo \<Rightarrow>
          map_option (map_sum id (\<lambda>u. Some (DUser u))) (parseUserMessage payload)
      | PacketTypeRemoteHardware \<Rightarrow>
          map_option (map_sum id (\<lambda>h. Some (DRemoteHardware h))) (parseRemoteHardwareMessage payload)
      | _ \<Rightarrow> Some (Inr None))"

subsection \<open>The legacy binary parser\<close>

text \<open>\<open>PacketTypeStats\<close>, the process-wide counter, and \<open>IncrementPacketType\<close>.\<close>

record PacketTypeStats =
  counts :: "PacketType \<rightharpoonup> int"
  total :: int

definition IncrementPacketType :: "PacketTypeStats \<Rightarrow> PacketType \<Rightarrow> PacketTypeStats" where
  "IncrementPacketType s packetType =
     s\<lparr>counts := (counts s)(packetType \<mapsto>
            int64 ((case counts s packetType of None \<Rightarrow> 0 | Some c \<Rightarrow> c) + 1)),
       total := int64 (total s + 1)\<rparr>"

text \<open>\<open>binary.LittleEndian.Uint32\<close> on a slice of four bytes.\<close>

definition LittleEndian_Uint32 :: "byte list \<Rightarrow> uint32" where
  "LittleEndian_Uint32 b =
     ucast (b ! 0) OR push_bit 8 (ucast (b ! 1)) OR push_bit 16 (ucast (b ! 2))
       OR push_bit 24 (ucast (b ! 3))"

datatype parse_error =
    PacketTooShort nat
  | DataMessageTooShort nat
  | ErrorParsingDataMessage

text \<open>
  \<open>ParseRawPacket\<close>. \<open>now\<close> is the value of \<open>time.Now()\<close>, \<open>stats\<close> the global
  \<open>globalPacketStats\<close>, returned updated. \<open>inferPacketType\<close> is passed in: it rests on
  \<open>proto.Unmarshal\<close> and on a floating-point ratio. The slices \<open>data[0:4]\<close> ... \<open>data[12:16]\<close>
  are within bounds by the length tests in front of them.
\<close>

definition ParseRawPacket ::
    "int \<Rightarrow> (byte list \<Rightarrow> PacketType) \<Rightarrow>
     (byte list \<Rightarrow> 'pos option) \<Rightarrow> (byte list \<Rightarrow> 'tel option) \<Rightarrow>
     PacketTypeStats \<Rightarrow> byte list \<Rightarrow>
     (panic + (parse_error + ('pos, 'tel) Packet) \<times> PacketTypeStats) option" where
  "ParseRawPacket now inferPacketType parsePositionMessage parseTelemetryMessage stats data =
     (if length data < 16 then Some (Inr (Inl (PacketTooShort (length data)), stats))
      else
        let packet = newPacket now data;
            packet = (if length data \<ge> 4
                      then packet\<lparr>p_ID := LittleEndian_Uint32 (take 4 data)\<rparr> else packet);
            packet = (if length data \<ge> 8
                      then packet\<lparr>p_From := LittleEndian_Uint32 (take 4 (drop 4 data))\<rparr> else packet);
            packet = (if length data \<ge> 12
                      then packet\<lparr>p_To := LittleEndian_Uint32 (take 4 (drop 8 data))\<rparr> else packet);
            packet = (if length data \<ge> 16
                      then let flags = LittleEndian_Uint32 (take 4 (drop 12 data))
                           in packet\<lparr>p_Channel := ucast (drop_bit 0 flags AND 0xFF),
                                     p_HopCount := ucast (drop_bit 8 flags AND 0xFF),
                                     p_HopLimit := ucast (drop_bit 16 flags AND 0xFF),
                                     p_Priority := ucast (drop_bit 24 flags AND 0xFF)\<rparr>
                      else packet)
        in if length data > 16 then
             (let payload = drop 16 data;
                  packetType = inferPacketType payload
              in case decodePayload parsePositionMessage parseTelemetryMessage packetType payload of
                   None \<Rightarrow> None
                 | Some (Inl e) \<Rightarrow> Some (Inl e)
                 | Some (Inr d) \<Rightarrow>
                     Some (Inr (Inr (packet\<lparr>p_Payload := payload, p_Type := packetType,
                                            p_DecodedData := d\<rparr>),
                                IncrementPacketType stats packetType)))
           else Some (Inr (Inr packet, stats)))"

section \<open>Client (package meshtastic): application data, queue, statistics\<close>

text \<open>\<open>Client.readVarintAt\<close> and \<open>Client.skipField\<close> repeat \<open>readVarint\<close> and
  \<open>skipPositionField\<close> line by line.\<close>

definition readVarintAt :: "byte list \<Rightarrow> int \<Rightarrow> panic + (uint64 \<times> int)" where
  "readVarintAt data offset = readVarint_loop data 0 0 offset"

definition skipField :: "byte list \<Rightarrow> int \<Rightarrow> int \<Rightarrow> panic + int" where
  "skipField data offset wireType =
     (if wireType = 0 then
        (case readVarintAt data offset of
           Inl e \<Rightarrow> Inl e
         | Inr (_, newOffset) \<Rightarrow> Inr newOffset)
      else if wireType = 1 then Inr (int64 (offset + 8))
      else if wireType = 2 then
        (case readVarintAt data offset of
           Inl e \<Rightarrow> Inl e
         | Inr (len, newOffset) \<Rightarrow>
             if newOffset = -1 then Inr (-1) else Inr (int64 (newOffset + sint len)))
      else if wireType = 5 then Inr (int64 (offset + 4))
      else Inr (-1))"

text \<open>
  One iteration of the loop of \<open>Client.parseDataMessage\<close>, up to the test \<open>offset == -1\<close>.
  The loop variables are \<open>portnum\<close>, \<open>payload\<close> and \<open>offset\<close>. In the payload case the new
  offset is \<open>newOffset + int(length)\<close> whether or not the payload was taken.
\<close>

definition parseDataMessage_step ::
    "byte list \<Rightarrow> uint32 \<Rightarrow> byte list \<Rightarrow> int \<Rightarrow> panic + (uint32 \<times> byte list \<times> int)" where
  "parseDataMessage_step data portnum payload offset0 =
     (if offset0 < 0 then Inl IndexOutOfRange
      else
        let tag = data ! nat offset0;
            fieldNumber = drop_bit 3 tag;
            wireType = tag AND 0x07;
            offset = offset0 + 1
        in if fieldNumber = 1 then
             (if wireType = 0 then
                (case readVarintAt data offset of
                   Inl e \<Rightarrow> Inl e
                 | Inr (v, newOffset) \<Rightarrow>
                     Inr (if newOffset \<noteq> -1 then ucast v else portnum, payload, newOffset))
              else map_sum id (\<lambda>off. (portnum, payload, off)) (skipField data offset (uint wireType)))
           else if fieldNumber = 2 then
             (if wireType = 2 then
                (case readVarintAt data offset of
                   Inl e \<Rightarrow> Inl e
                 | Inr (len, newOffset) \<Rightarrow>
                     if newOffset \<noteq> -1 \<and> int64 (newOffset + sint len) \<le> int (length data) then
                       (case slice data newOffset (int64 (newOffset + sint len)) of
                          Inl e \<Rightarrow> Inl e
                        | Inr p \<Rightarrow> Inr (portnum, p, int64 (newOffset + sint len)))
                     else Inr (portnum, payload, int64 (newOffset + sint len)))
              else map_sum id (\<lambda>off. (portnum, payload, off)) (skipField data offset (uint wireType)))
           else map_sum id (\<lambda>off. (portnum, payload, off)) (skipField data offset (uint wireType)))"

partial_function (option) parseDataMessage_loop ::
    "byte list \<Rightarrow> uint32 \<Rightarrow> byte list \<Rightarrow> int \<Rightarrow> (panic + (parse_error + uint32 \<times> byte list)) option" where
  "parseDataMessage_loop data portnum payload offset =
     (if offset < int (length data) then
        (case parseDataMessage_step data portnum payload offset of
           Inl e \<Rightarrow> Some (Inl e)
         | Inr (portnum', payload', offset') \<Rightarrow>
             if offset' = -1 then Some (Inr (Inl ErrorParsingDataMessage))
             else parseDataMessage_loop data portnum' payload' offset')
      else Some (Inr (Inr (portnum, payload))))"

declare parseDataMessage_loop.simps [code]

text \<open>
  \<open>Client.parseDataMessage\<close>: the result is the returned \<open>error\<close> (\<open>None\<close> is \<open>nil\<close>) and the
  packet, which is modified only on the path that returns \<open>nil\<close>.
\<close>

definition parseDataMessage ::
    "(byte list \<Rightarrow> 'pos option) \<Rightarrow> (byte list \<Rightarrow> 'tel option) \<Rightarrow>
     ('pos, 'tel) Packet \<Rightarrow> byte list \<Rightarrow> (panic + parse_error option \<times> ('pos, 'tel) Packet) option" where
  "parseDataMessage parsePositionMessage parseTelemetryMessage packet data =
     (if length data < 2 then Some (Inr (Some (DataMessageTooShort (length data)), packet))
      else
        case parseDataMessage_loop data 0 [] 0 of
          None \<Rightarrow> None
        | Some (Inl e) \<Rightarrow> Some (Inl e)
        | Some (Inr (Inl err)) \<Rightarrow> Some (Inr (Some err, packet))
        | Some (Inr (Inr (portnum, payload))) \<Rightarrow>
            (case decodePayload parsePositionMessage parseTelemetryMessage (mapPortNum portnum) payload of
               None \<Rightarrow> None
             | Some (Inl e) \<Rightarrow> Some (Inl e)
             | Some (Inr d) \<Rightarrow>
                 Some (Inr (None, packet\<lparr>p_Type := mapPortNum portnum, p_Payload := payload,
                                          p_DecodedData := d\<rparr>))))"


subsection \<open>The bounded packet queue\<close>

text \<open>
  \<open>NewClient\<close> creates the channel \<open>packets\<close> with \<open>make(chan *Packet, 100)\<close>. The state of
  the channel is the list of buffered packets, oldest first.
\<close>

definition packetsCap :: nat where
  "packetsCap = 100"

definition NewClient_packets :: "'p list" where
  "NewClient_packets = []"

text \<open>
  The statement every decode path of \<open>handleRawData\<close> ends with:
  \<^verbatim>\<open>select { case c.packets <- packet: default: c.logger.Println("Packet queue full, ...") }\<close>
  With a \<open>default\<close> branch the send never waits: it succeeds when the buffer has room and the
  packet is dropped otherwise. The result is the queue and whether the packet was queued.
\<close>

definition trySend :: "'p list \<Rightarrow> 'p \<Rightarrow> 'p list \<times> bool" where
  "trySend packets packet =
     (if length packets < packetsCap then (packets @ [packet], True) else (packets, False))"

text \<open>
  \<open>Client.handleRawData\<close>, the entry point called once per chunk. The decoders are tried in
  the order of the source; each is a parameter that yields the packet when it succeeds
  (\<open>err == nil\<close>). \<open>handleTextData\<close> builds at most one packet (none for blank text) and
  sends it the same way.
\<close>

definition handleTextData :: "(byte list \<Rightarrow> 'p option) \<Rightarrow> 'p list \<Rightarrow> byte list \<Rightarrow> 'p list" where
  "handleTextData textPacket packets data =
     (case textPacket data of None \<Rightarrow> packets | Some packet \<Rightarrow> fst (trySend packets packet))"

definition handleRawData ::
    "(byte list \<Rightarrow> 'p option) \<Rightarrow> (byte list \<Rightarrow> 'p option) \<Rightarrow> (byte list \<Rightarrow> 'p option) \<Rightarrow>
     (byte list \<Rightarrow> 'p option) \<Rightarrow> 'p list \<Rightarrow> byte list \<Rightarrow> 'p list" where
  "handleRawData parseJSONPacket parseFromRadioMessage parseRawPacket textPacket packets data =
     (case parseJSONPacket data of
        Some packet \<Rightarrow> fst (trySend packets packet)
      | None \<Rightarrow>
          (case parseFromRadioMessage data of
             Some packet \<Rightarrow> fst (trySend packets packet)
           | None \<Rightarrow>
               (case parseRawPacket data of
                  None \<Rightarrow> handleTextData textPacket packets data
                | Some packet \<Rightarrow> fst (trySend packets packet))))"

text \<open>The consumer \<open>processPackets\<close> takes the oldest packet (it waits while there is none).\<close>

definition receive :: "'p list \<Rightarrow> 'p list" where
  "receive packets = tl packets"

text \<open>An interleaving of producers and the consumer: a chunk is submitted or a packet is
  taken.\<close>

datatype queue_event = Submit "byte list" | Receive

fun runQueue ::
    "(byte list \<Rightarrow> 'p option) \<Rightarrow> (byte list \<Rightarrow> 'p option) \<Rightarrow> (byte list \<Rightarrow> 'p option) \<Rightarrow>
     (byte list \<Rightarrow> 'p option) \<Rightarrow> 'p list \<Rightarrow> queue_event list \<Rightarrow> 'p list" where
  "runQueue pj pf pr tp packets [] = packets"
| "runQueue pj pf pr tp packets (Submit data # es) =
     runQueue pj pf pr tp (handleRawData pj pf pr tp packets data) es"
| "runQueue pj pf pr tp packets (Receive # es) = runQueue pj pf pr tp (receive packets) es"

subsection \<open>Statistics\<close>

text \<open>
  \<open>Statistics\<close>. The counters are \<open>uint64\<close>, the two averages \<open>float32\<close>. A read of a
  missing map key gives 0.
\<close>

record Statistics =
  TotalPackets :: uint64
  PacketsByType :: "PacketType \<rightharpoonup> uint64"
  PacketsByChannel :: "byte \<rightharpoonup> uint64"
  AverageRSSI :: float32
  AverageSNR :: float32
  StartTime :: int
  LastPacketTime :: int

text \<open>The statistics \<open>NewClient\<close> creates; \<open>LastPacketTime\<close> is the zero time.\<close>

definition NewClient_stats :: "int \<Rightarrow> Statistics" where
  "NewClient_stats now =
     \<lparr>TotalPackets = 0, PacketsByType = Map.empty, PacketsByChannel = Map.empty,
      AverageRSSI = 0, AverageSNR = 0, StartTime = now, LastPacketTime = 0\<rparr>"

definition getCount :: "('k \<rightharpoonup> uint64) \<Rightarrow> 'k \<Rightarrow> uint64" where
  "getCount m k = (case m k of None \<Rightarrow> 0 | Some c \<Rightarrow> c)"

text \<open>
  \<open>Client.updateStatistics\<close>. The tests \<open>c.stats.AverageRSSI == 0\<close> and \<open>packet.RxSNR != 0\<close>
  are comparisons of \<open>float32\<close> values; \<open>packet.RxRSSI != 0\<close> compares an \<open>int32\<close>.
\<close>

definition updateStatistics :: "(real \<Rightarrow> float32) \<Rightarrow> Statistics \<Rightarrow> ('pos, 'tel) Packet \<Rightarrow> Statistics" where
  "updateStatistics fround stats packet =
     stats\<lparr>TotalPackets := TotalPackets stats + 1,
           PacketsByType := (PacketsByType stats)
              (p_Type packet \<mapsto> getCount (PacketsByType stats) (p_Type packet) + 1),
           PacketsByChannel := (PacketsByChannel stats)
              (p_Channel packet \<mapsto> getCount (PacketsByChannel stats) (p_Channel packet) + 1),
           LastPacketTime := p_RxTime packet,
           AverageRSSI :=
             (if p_RxRSSI packet \<noteq> 0 then
                (if f32_eq0 (AverageRSSI stats) then float32_of_int32 fround (p_RxRSSI packet)
                 else f32_div2 fround
                        (f32_add fround (AverageRSSI stats) (float32_of_int32 fround (p_RxRSSI packet))))
              else AverageRSSI stats),
           AverageSNR :=
             (if \<not> f32_eq0 (p_RxSNR packet) then
                (if f32_eq0 (AverageSNR stats) then p_RxSNR packet
                 else f32_div2 fround (f32_add fround (AverageSNR stats) (p_RxSNR packet)))
              else AverageSNR stats)\<rparr>"

text \<open>The consumer routes each packet through \<open>updateStatistics\<close> once, in order.\<close>

definition recordAll :: "(real \<Rightarrow> float32) \<Rightarrow> Statistics \<Rightarrow> ('pos, 'tel) Packet list \<Rightarrow> Statistics" where
  "recordAll fround stats ps = foldl (updateStatistics fround) stats ps"

text \<open>The sum of the counts held in a counter map, in \<open>uint64\<close> arithmetic.\<close>

definition sumCounts :: "('k \<rightharpoonup> uint64) \<Rightarrow> uint64" where
  "sumCounts m = (\<Sum>k \<in> dom m. the (m k))"

text \<open>The counting invariant of \<open>Statistics\<close>: both counter maps are finite and each sums to
  \<open>TotalPackets\<close>.\<close>

definition statsInv :: "Statistics \<Rightarrow> bool" where
  "statsInv s \<longleftrightarrow> finite (dom (PacketsByType s)) \<and> finite (dom (PacketsByChannel s))
     \<and> sumCounts (PacketsByType s) = TotalPackets s \<and> sumCounts (PacketsByChannel s) = TotalPackets s"

section \<open>Node directory (internal/meshtastic/nodedb.go)\<close>

record SimpleNodeInfo =
  n_ID :: string
  n_LongName :: string
  n_ShortName :: string

record NodeDB =
  nodes :: "uint32 \<rightharpoonup> SimpleNodeInfo"

definition NewNodeDB :: NodeDB where
  "NewNodeDB = \<lparr>nodes = Map.empty\<rparr>"

definition AddOrUpdateUserInfo :: "NodeDB \<Rightarrow> uint32 \<Rightarrow> string \<Rightarrow> string \<Rightarrow> string \<Rightarrow> NodeDB" where
  "AddOrUpdateUserInfo db nodeID id' longName shortName =
     db\<lparr>nodes := (nodes db)(nodeID \<mapsto> \<lparr>n_ID = id', n_LongName = longName, n_ShortName = shortName\<rparr>)\<rparr>"

text \<open>\<open>fmt.Sprintf("!%08x", nodeID)\<close>: an exclamation mark and the eight lower-case
  hexadecimal digits of the 32-bit value.\<close>

definition hexDigit :: "nat \<Rightarrow> char" where
  "hexDigit d = ''0123456789abcdef'' ! d"

definition hexNodeID :: "uint32 \<Rightarrow> string" where
  "hexNodeID nodeID =
     CHR ''!'' # map (\<lambda>i. hexDigit (unat (drop_bit (4 * (7 - i)) nodeID AND 0xF))) [0..<8]"

text \<open>
  \<open>utils.SanitizeForTerminal\<close>. On a string of ASCII bytes none of the emoji replacements
  applies (every key has bytes above 127), the rune filter \<open>isProblematicForTerminal\<close> drops
  exactly the control characters (below 32, and 127), the regular expression finds nothing
  more, and \<open>strings.TrimSpace\<close> removes the leading and trailing spaces. For a string with
  a byte above 127 the result depends on the Unicode tables of the standard library; it is
  given by the parameter \<open>sanitizeUnicode\<close>.
\<close>

definition isASCII :: "string \<Rightarrow> bool" where
  "isASCII s = (\<forall>c \<in> set s. (of_char c :: nat) < 128)"

definition trimSpaces :: "string \<Rightarrow> string" where
  "trimSpaces s = rev (dropWhile (\<lambda>c. c = CHR '' '') (rev (dropWhile (\<lambda>c. c = CHR '' '') s)))"

definition SanitizeForTerminal :: "(string \<Rightarrow> string) \<Rightarrow> string \<Rightarrow> string" where
  "SanitizeForTerminal sanitizeUnicode s =
     (if s = [] then s
      else if isASCII s then
        trimSpaces (filter (\<lambda>c. \<not> ((of_char c :: nat) < 32 \<or> (of_char c :: nat) = 127)) s)
      else sanitizeUnicode s)"

definition GetNodeName :: "(string \<Rightarrow> string) \<Rightarrow> NodeDB \<Rightarrow> uint32 \<Rightarrow> string" where
  "GetNodeName sanitizeUnicode db nodeID =
     (case nodes db nodeID of
        None \<Rightarrow> hexNodeID nodeID
      | Some node \<Rightarrow>
          if n_LongName node \<noteq> [] then SanitizeForTerminal sanitizeUnicode (n_LongName node)
          else if n_ShortName node \<noteq> [] then SanitizeForTerminal sanitizeUnicode (n_ShortName node)
          else if n_ID node \<noteq> [] then n_ID node
          else hexNodeID nodeID)"

definition GetNodeShortName :: "(string \<Rightarrow> string) \<Rightarrow> NodeDB \<Rightarrow> uint32 \<Rightarrow> string" where
  "GetNodeShortName sanitizeUnicode db nodeID =
     (case nodes db nodeID of
        None \<Rightarrow> hexNodeID nodeID
      | Some node \<Rightarrow>
          if n_ShortName node \<noteq> [] then SanitizeForTerminal sanitizeUnicode (n_ShortName node)
          else if n_LongName node \<noteq> [] then
            (let sanitized = SanitizeForTerminal sanitizeUnicode (n_LongName node)
             in if length sanitized \<le> 8 then sanitized else take 8 sanitized)
          else hexNodeID nodeID)"


text \<open>A plain name: not empty, printable ASCII only, no space at either end.\<close>

definition plainName :: "string \<Rightarrow> bool" where
  "plainName s \<longleftrightarrow> s \<noteq> [] \<and> (\<forall>c \<in> set s. 32 \<le> (of_char c :: nat) \<and> (of_char c :: nat) < 127)
     \<and> hd s \<noteq> CHR '' '' \<and> last s \<noteq> CHR '' ''"


(*C2DEFS*)

section \<open>Frame synchronizer: resynchronisation\<close>

lemmas frame_defs = processByte_def START1_def START2_def HEADER_LEN_def MAX_TO_FROM_RADIO_SIZE_def

lemma and_255_int: "(x::int) AND 0xFF = x mod 256"
proof -
  have "x AND mask 8 = x mod 2 ^ 8"
    by (simp only: take_bit_eq_mod flip: take_bit_eq_mask)
  then show ?thesis by (simp add: mask_eq_exp_minus_1)
qed

lemma streamReader_append:
  "streamReader (xs @ ys) rxBuf =
     (case streamReader xs rxBuf of
        (rxBuf', outs, errs) \<Rightarrow>
          (case streamReader ys rxBuf' of
             (rxBuf'', outs', errs') \<Rightarrow> (rxBuf'', outs @ outs', errs @ errs')))"
  by (induction xs arbitrary: rxBuf) (auto split: prod.splits)

lemma streamReader_noise:
  "START1 \<notin> set bs \<Longrightarrow> streamReader bs [] = ([], [], [])"
  by (induction bs) (auto simp: processByte_def)

lemma packetLen_header:
  "packetLen (s1 # s2 # hi # lo # rest) = 256 * uint hi + uint lo"
  by (simp add: packetLen_def push_bit_eq_mult)

lemma streamReader_oversized:
  "256 * uint hi + uint lo > 512 \<Longrightarrow> streamReader [START1, START2, hi, lo] [] = ([], [], [])"
  by (simp add: frame_defs packetLen_header)

lemma header_len:
  assumes "length p < 65536"
  shows "256 * uint (word_of_int (drop_bit 8 (int (length p)) AND 0xFF) :: byte)
         + uint (word_of_int (int (length p) AND 0xFF) :: byte) = int (length p)"
proof -
  let ?n = "int (length p)"
  have n: "0 \<le> ?n" "?n < 65536" using assms by auto
  have hi: "uint (word_of_int (drop_bit 8 ?n AND 0xFF) :: byte) = ?n div 256"
    using n by (simp add: and_255_int uint_word_of_int drop_bit_eq_div)
  have lo: "uint (word_of_int (?n AND 0xFF) :: byte) = ?n mod 256"
    by (simp add: and_255_int uint_word_of_int)
  show ?thesis
    by (simp add: hi lo del: of_nat_mod of_nat_div)
qed

lemma streamReader_payload:
  assumes "256 * uint hi + uint lo = int (length (pre @ rest))" "rest \<noteq> []"
  shows "streamReader rest (START1 # START2 # hi # lo # pre) = ([], [pre @ rest], [])"
  using assms
proof (induction rest arbitrary: pre)
  case Nil
  then show ?case by simp
next
  case (Cons b rest)
  show ?case
  proof (cases "rest = []")
    case True
    with Cons.prems show ?thesis
      by (simp add: processByte_def HEADER_LEN_def packetLen_header)
  next
    case False
    have "streamReader rest (START1 # START2 # hi # lo # (pre @ [b])) = ([], [(pre @ [b]) @ rest], [])"
      using Cons.prems False by (intro Cons.IH) auto
    with Cons.prems False show ?thesis
      by (simp add: processByte_def HEADER_LEN_def packetLen_header)
  qed
qed

lemma streamReader_preamble:
  "streamReader (START1 # START2 # hi # rest) [] = streamReader rest [START1, START2, hi]"
  by (simp add: processByte_def HEADER_LEN_def)

lemma streamReader_frame:
  assumes "length p \<le> 512"
  shows "streamReader (sendToRadio p) [] = ([], [p], [])"
proof -
  define hi :: byte where "hi = word_of_int (drop_bit 8 (int (length p)) AND 0xFF)"
  define lo :: byte where "lo = word_of_int (int (length p) AND 0xFF)"
  have L: "256 * uint hi + uint lo = int (length p)"
    unfolding hi_def lo_def using assms by (intro header_len) simp
  have S: "sendToRadio p = START1 # START2 # hi # lo # p"
    by (simp add: sendToRadio_def hi_def lo_def Let_def)
  have H: "processByte lo [START1, START2, hi]
           = (if p = [] then ([], Some [], None) else ([START1, START2, hi, lo], None, None))"
    using L assms by (auto simp add: processByte_def HEADER_LEN_def MAX_TO_FROM_RADIO_SIZE_def packetLen_header)
  show ?thesis
  proof (cases "p = []")
    case True
    show ?thesis unfolding S streamReader_preamble using True by (simp add: H)
  next
    case False
    have "streamReader p (START1 # START2 # hi # lo # []) = ([], [[] @ p], [])"
      using L False by (intro streamReader_payload) auto
    then show ?thesis unfolding S streamReader_preamble using False
      by (simp add: H)
  qed
qed

text \<open>
  Claim C1 (as amended). While awaiting the preamble, a byte other than the expected preamble
  byte empties the buffer; so does a fourth header byte completing a big-endian length above
  512. In each case no payload reaches the handler, and \<open>processByte\<close> returns no error on
  any input. Feeding \<open>[0x11, 0x94, 0xC3, 0x00, 0x02, 0xAA, 0xBB]\<close> hands exactly the payload
  \<open>[0xAA, 0xBB]\<close> to the handler. A header declaring more than 512 bytes, followed by bytes
  none of which is \<open>START1\<close>, hands nothing to the handler, and a frame of at most 512
  payload bytes that follows is delivered whole.
\<close>

theorem frame_sync:
  "(length rxBuf = 0 \<and> b \<noteq> START1 \<longrightarrow> processByte b rxBuf = ([], None, None))
   \<and> (length rxBuf = 1 \<and> b \<noteq> START2 \<longrightarrow> processByte b rxBuf = ([], None, None))
   \<and> (length rxBuf = 3 \<and> 512 < 256 * uint (rxBuf ! 2) + uint b \<longrightarrow> processByte b rxBuf = ([], None, None))
   \<and> snd (snd (processByte b rxBuf)) = None
   \<and> streamReader [0x11, 0x94, 0xC3, 0x00, 0x02, 0xAA, 0xBB] [] = ([], [[0xAA, 0xBB]], [])
   \<and> (512 < 256 * uint hi + uint lo \<and> START1 \<notin> set noise \<and> length p \<le> 512 \<longrightarrow>
        streamReader [START1, START2, hi, lo] [] = ([], [], []) \<and>
        streamReader ([START1, START2, hi, lo] @ noise) [] = ([], [], []) \<and>
        streamReader ([START1, START2, hi, lo] @ noise @ sendToRadio p) [] = ([], [p], []))"
proof (intro conjI impI)
  show "snd (snd (processByte b rxBuf)) = None"
    by (simp add: processByte_def Let_def)
next
  assume "length rxBuf = 3 \<and> 512 < 256 * uint (rxBuf ! 2) + uint b"
  then show "processByte b rxBuf = ([], None, None)"
    by (simp add: processByte_def Let_def HEADER_LEN_def MAX_TO_FROM_RADIO_SIZE_def packetLen_def
        push_bit_eq_mult nth_append)
next
  show "streamReader [0x11, 0x94, 0xC3, 0x00, 0x02, 0xAA, 0xBB] [] = ([], [[0xAA, 0xBB]], [])"
    by (simp add: frame_defs packetLen_def)
next
  assume a: "512 < 256 * uint hi + uint lo \<and> START1 \<notin> set noise \<and> length p \<le> 512"
  have h: "streamReader [START1, START2, hi, lo] [] = ([], [], [])"
    using a by (intro streamReader_oversized) simp
  have n: "streamReader noise [] = ([], [], [])"
    using a by (intro streamReader_noise) simp
  have f: "streamReader (sendToRadio p) [] = ([], [p], [])"
    using a by (intro streamReader_frame) simp
  show "streamReader [START1, START2, hi, lo] [] = ([], [], [])"
    by (rule h)
  show "streamReader ([START1, START2, hi, lo] @ noise) [] = ([], [], [])"
    by (simp only: streamReader_append h n prod.case append_Nil)
  show "streamReader ([START1, START2, hi, lo] @ noise @ sendToRadio p) [] = ([], [p], [])"
    by (simp only: streamReader_append h n f prod.case append_Nil)
qed (simp_all add: processByte_def)

theorem frame_sync_witness:
  "streamReader ([START1, START2, 0x02, 0x01] @ [0x00, 0xC3, 0x07] @ sendToRadio [0xAA, 0xBB]) []
     = ([], [[0xAA, 0xBB]], [])
   \<and> processByte 0x11 [] = ([], None, None)
   \<and> processByte 0x94 [START1] = ([], None, None)
   \<and> processByte 0x01 [START1, START2, 0x02] = ([], None, None)"
  using frame_sync [where rxBuf = "[]" and b = "0x11" and hi = "0x02" and lo = "0x01"
        and noise = "[0x00, 0xC3, 0x07]" and p = "[0xAA, 0xBB]"]
    frame_sync [where rxBuf = "[START1]" and b = "0x94"]
    frame_sync [where rxBuf = "[START1, START2, 0x02]" and b = "0x01"]
  by (simp add: START1_def START2_def)

text \<open>
  Claim C1 as stated fails for arbitrary bytes after an oversized header: the oversized header
  resets the buffer at its fourth byte, so the bytes after it are read as a fresh stream.
  They can contain a frame, which is then delivered; and a trailing \<open>START1\<close> among them
  swallows the \<open>START1\<close> of the frame that follows, which is then lost.
\<close>

theorem frame_oversized_counterexample:
  "streamReader ([0x94, 0xC3, 0x02, 0x01] @ [0x94, 0xC3, 0x00, 0x01, 0x55]) [] = ([], [[0x55]], [])
   \<and> streamReader ([0x94, 0xC3, 0x02, 0x01] @ [0x94] @ sendToRadio [0xAA, 0xBB]) [] = ([], [], [])"
  by (simp add: frame_defs packetLen_def sendToRadio_def)


section \<open>Port-number resolution\<close>

text \<open>
  Claim C8. The port-number resolver is total and table-driven: a port number in
  \<open>PortNumToPacketType\<close> resolves to the table's type, any other port number resolves to
  \<open>PacketTypeUnknown\<close>; port 4 resolves to \<open>PacketTypeNodeInfo\<close> and port 99999, which is not
  in the table, to \<open>PacketTypeUnknown\<close>.
\<close>

theorem port_mapping:
  "(PortNumToPacketType portnum = Some t \<longrightarrow> mapPortNum portnum = t)
   \<and> (PortNumToPacketType portnum = None \<longrightarrow> mapPortNum portnum = PacketTypeUnknown)
   \<and> mapPortNum 4 = PacketTypeNodeInfo
   \<and> PortNumToPacketType 99999 = None
   \<and> mapPortNum 99999 = PacketTypeUnknown"
  by (simp add: mapPortNum_def) (simp add: PortNumToPacketType_def)

theorem port_mapping_witness:
  "PortNumToPacketType 67 = Some PacketTypeTelemetry \<and> mapPortNum 67 = PacketTypeTelemetry
   \<and> PortNumToPacketType 13 = None \<and> mapPortNum 13 = PacketTypeUnknown"
  using port_mapping [where portnum = 67 and t = PacketTypeTelemetry]
    port_mapping [where portnum = 13]
  by (simp add: PortNumToPacketType_def)

section \<open>Varint round trip and field skipping\<close>

declare readVarint_loop.simps [simp del] appendVarint.simps [simp del]

subsection \<open>Bit-level facts\<close>

lemma c7f: "(0x7F::'a::len word) = mask 7" by (simp add: mask_eq_exp_minus_1)

lemma bit_0x80: "bit (0x80::int) n \<longleftrightarrow> n = 7"
proof -
  have "(0x80::int) = 2 ^ 7" by simp
  then show ?thesis by (simp only: bit_exp_iff) auto
qed

lemma cont_byte_high: "(ucast (v AND 0x7F OR 0x80 :: uint64) :: byte) AND 0x80 \<noteq> 0"
proof -
  have "bit ((ucast (v AND 0x7F OR 0x80 :: uint64) :: byte) AND 0x80) 7"
    by (simp add: bit_simps bit_0x80)
  then show ?thesis by auto
qed

lemma cont_byte_low: "ucast ((ucast (v AND 0x7F OR 0x80 :: uint64) :: byte) AND 0x7F) = (v AND 0x7F :: uint64)"
  unfolding c7f by (rule bit_eqI) (auto simp add: bit_simps bit_0x80)

lemma last_byte_high: "(ucast (v AND 0x7F :: uint64) :: byte) AND 0x80 = 0"
  unfolding c7f by (rule bit_eqI) (auto simp add: bit_simps bit_0x80)

lemma last_byte_low: "ucast ((ucast (v AND 0x7F :: uint64) :: byte) AND 0x7F) = (v AND 0x7F :: uint64)"
  unfolding c7f by (rule bit_eqI) (auto simp add: bit_simps)

lemma small_and: "v < 0x80 \<Longrightarrow> (v::uint64) AND 0x7F = v"
  unfolding c7f by (rule less_mask_eq) simp

lemma split7: "(v AND 0x7F) OR push_bit 7 (drop_bit 7 v) = (v::uint64)"
  unfolding c7f
proof (rule bit_eqI)
  fix n
  show "bit (v AND mask 7 OR push_bit 7 (drop_bit 7 v)) n = bit v n"
  proof (cases "n < 7")
    case True
    then show ?thesis by (simp add: bit_simps)
  next
    case False
    then have "7 + (n - 7) = n" by simp
    then show ?thesis using False by (auto simp add: bit_simps dest: bit_imp_le_length)
  qed
qed

lemma appendVarint_prefix: "\<exists>enc. enc \<noteq> [] \<and> (\<forall>data. appendVarint data v = data @ enc)"
proof (induction v rule: less_induct)
  case (less v)
  show ?case
  proof (cases "0x80 \<le> v")
    case True
    then have "128 \<le> unat v" by (simp add: word_le_nat_alt)
    then have "unat v div 128 < unat v" by simp
    then have "drop_bit 7 v < v" by (simp add: word_less_nat_alt unat_drop_bit_eq drop_bit_eq_div unat_div)
    from less [OF this] obtain enc where e: "\<forall>data. appendVarint data (drop_bit 7 v) = data @ enc" by blast
    have "\<forall>data. appendVarint data v = data @ (ucast (v AND 0x7F OR 0x80) # enc)"
      using True e by (subst appendVarint.simps) simp
    then show ?thesis by blast
  next
    case False
    then have "\<forall>data. appendVarint data v = data @ [ucast (v AND 0x7F)]"
      by (subst appendVarint.simps) simp
    then show ?thesis by blast
  qed
qed


lemma readVarint_loop_roundtrip:
  assumes "unat v < 2 ^ (64 - 7 * k)"
  shows "readVarint_loop (appendVarint pre v @ post) r (7 * k) (int (length pre))
         = Inr (r OR push_bit (7 * k) v, int (length (appendVarint pre v)))"
  using assms
proof (induction pre v arbitrary: r k rule: appendVarint.induct)
  case (1 pre v)
  show ?case
  proof (cases "0x80 \<le> v")
    case True
    define c :: byte where "c = ucast (v AND 0x7F OR 0x80)"
    define v' where "v' = drop_bit 7 v"
    have A: "appendVarint pre v = appendVarint (pre @ [c]) v'"
      using True by (subst appendVarint.simps) (simp add: c_def v'_def)
    obtain enc where enc: "appendVarint (pre @ [c]) v' = (pre @ [c]) @ enc"
      using appendVarint_prefix [of v'] by blast
    have v128: "128 \<le> unat v" using True by (simp add: word_le_nat_alt)
    have k: "7 * k + 7 < 64"
    proof (rule ccontr)
      assume "\<not> 7 * k + 7 < 64"
      then have "64 - 7 * k \<le> 7" by simp
      then have "(2::nat) ^ (64 - 7 * k) \<le> 2 ^ 7" by (intro power_increasing) simp_all
      with 1(2) v128 show False by simp
    qed
    have "64 - 7 * k = 7 + (64 - 7 * Suc k)" using k by simp
    then have "(2::nat) ^ (64 - 7 * k) = 2 ^ 7 * 2 ^ (64 - 7 * Suc k)"
      by (simp only: power_add)
    then have "unat v < 2 ^ 7 * 2 ^ (64 - 7 * Suc k)"
      using 1(2) by simp
    then have "unat v div 128 < 2 ^ (64 - 7 * Suc k)"
      by (intro less_mult_imp_div_less) (simp add: mult.commute)
    then have v': "unat v' < 2 ^ (64 - 7 * Suc k)"
      by (simp add: v'_def unat_drop_bit_eq drop_bit_eq_div unat_div)
    define r' where "r' = r OR push_bit (7 * k) (v AND 0x7F)"
    have IH: "readVarint_loop (appendVarint (pre @ [c]) v' @ post) r' (7 * Suc k) (int (length (pre @ [c])))
              = Inr (r' OR push_bit (7 * Suc k) v', int (length (appendVarint (pre @ [c]) v')))"
      unfolding c_def v'_def using True v' [unfolded v'_def] by (intro 1(1))
    have R: "r' OR push_bit (7 * Suc k) v' = r OR push_bit (7 * k) v"
    proof -
      have "push_bit (7 * Suc k) v' = push_bit (7 * k) (push_bit 7 v')"
        by (simp add: push_bit_push_bit add.commute)
      then have "r' OR push_bit (7 * Suc k) v' = r OR push_bit (7 * k) ((v AND 0x7F) OR push_bit 7 v')"
        by (simp add: r'_def push_bit_or or.assoc)
      then show ?thesis by (simp add: v'_def split7)
    qed
    have step: "readVarint_loop (appendVarint (pre @ [c]) v' @ post) r (7 * k) (int (length pre))
          = readVarint_loop (appendVarint (pre @ [c]) v' @ post) r' (7 * Suc k) (int (length (pre @ [c])))"
      unfolding enc using k by (subst readVarint_loop.simps)
        (simp add: Let_def nth_append c_def cont_byte_high cont_byte_low r'_def add.commute)
    show ?thesis
      by (simp only: A step IH R)
  next
    case False
    then have lt: "v < 0x80" by simp
    define c :: byte where "c = ucast (v AND 0x7F)"
    have hb: "c AND 0x80 = 0" unfolding c_def by (rule last_byte_high)
    have "ucast (c AND 0x7F) = v AND 0x7F" unfolding c_def by (rule last_byte_low)
    then have lb: "ucast (c AND 0x7F) = v" using small_and [OF lt] by simp
    have A: "appendVarint pre v = pre @ [c]"
      using False by (subst appendVarint.simps) (simp add: c_def)
    show ?thesis
      by (subst readVarint_loop.simps) (simp add: A Let_def nth_append hb lb)
  qed
qed

lemma readVarint_roundtrip:
  "readVarint (appendVarint pre v @ post) (int (length pre)) = Inr (v, int (length (appendVarint pre v)))"
proof -
  have "unat v < 2 ^ (64 - 7 * 0)"
    using unsigned_less [of v, where 'a = nat] by simp
  from readVarint_loop_roundtrip [OF this, of pre post 0] show ?thesis
    by (simp add: readVarint_def)
qed

lemma readVarint_loop_fail:
  assumes "0 \<le> off" "shift = 7 * k" "k \<le> 9"
    and "\<forall>i. nat off \<le> i \<and> i < length data \<and> i < nat off + (10 - k) \<longrightarrow> data ! i AND 0x80 \<noteq> 0"
  shows "readVarint_loop data r shift off = Inr (0, -1)"
  using assms
proof (induction data r shift off arbitrary: k rule: readVarint_loop.induct)
  case (1 data result shift current)
  show ?case
  proof (cases "current < int (length data)")
    case False
    then show ?thesis by (subst readVarint_loop.simps) simp
  next
    case True
    define b where "b = data ! nat current"
    show ?thesis
    proof (cases "shift + 7 \<ge> 64")
      case big: True
      have cont: "b AND 0x80 \<noteq> 0"
        using 1(2,4,5) True by (auto simp: b_def)
      show ?thesis
        using True big cont 1(2)
        by (subst readVarint_loop.simps) (simp add: Let_def b_def)
    next
      case small: False
      then have k9: "k < 9" using 1(3) by simp
      have cont: "b AND 0x80 \<noteq> 0"
        using 1(2,5) True k9 by (auto simp: b_def)
      have "readVarint_loop data (result OR push_bit shift (ucast (b AND 0x7F))) (shift + 7) (current + 1) = Inr (0, -1)"
        using True 1(2,3,5) cont small k9
        by (intro 1(1) [where k = "Suc k"]) (auto simp: b_def nat_add_distrib)
      then show ?thesis
        using True small cont 1(2)
        by (subst readVarint_loop.simps) (simp add: Let_def b_def)
    qed
  qed
qed



lemma readVarint_fail:
  assumes "\<forall>i. off \<le> i \<and> i < length data \<and> i < off + 10 \<longrightarrow> data ! i AND 0x80 \<noteq> 0"
  shows "readVarint data (int off) = Inr (0, -1)"
  unfolding readVarint_def
  using assms by (intro readVarint_loop_fail [where k = 0]) simp_all

text \<open>
  Claim C4. Encoding any 64-bit value with \<open>appendVarint\<close> and decoding with \<open>readVarint\<close>
  from offset 0 (or, after a prefix, from the offset where the encoding starts) returns the
  value and the offset just past the encoding; the encodings of 0, 127, 128, 300 and 2^35
  are the expected byte strings. Decoding fails with \<open>(0, -1)\<close> when every byte from the
  offset up to the end of the buffer, or up to the tenth byte, has the continuation bit set.
\<close>

theorem varint_roundtrip:
  "readVarint (appendVarint [] v) 0 = Inr (v, int (length (appendVarint [] v)))
   \<and> readVarint (appendVarint pre v @ post) (int (length pre)) = Inr (v, int (length (appendVarint pre v)))
   \<and> appendVarint [] 0 = [0x00] \<and> appendVarint [] 127 = [0x7F] \<and> appendVarint [] 128 = [0x80, 0x01]
   \<and> appendVarint [] 300 = [0xAC, 0x02] \<and> appendVarint [] (2 ^ 35) = [0x80, 0x80, 0x80, 0x80, 0x80, 0x01]
   \<and> ((\<forall>i. off \<le> i \<and> i < length data \<and> i < off + 10 \<longrightarrow> data ! i AND 0x80 \<noteq> 0)
        \<longrightarrow> readVarint data (int off) = Inr (0, -1))"
proof (intro conjI impI)
  show "readVarint (appendVarint [] v) 0 = Inr (v, int (length (appendVarint [] v)))"
    using readVarint_roundtrip [of "[]" v "[]"] by simp
  show "readVarint (appendVarint pre v @ post) (int (length pre)) = Inr (v, int (length (appendVarint pre v)))"
    by (rule readVarint_roundtrip)
  show "appendVarint [] 0 = [0x00]" by (simp add: appendVarint.simps)
  show "appendVarint [] 127 = [0x7F]" by (simp add: appendVarint.simps)
  show "appendVarint [] 128 = [0x80, 0x01]" by (simp add: appendVarint.simps word_le_nat_alt)
  show "appendVarint [] 300 = [0xAC, 0x02]" by (simp add: appendVarint.simps word_le_nat_alt)
  show "appendVarint [] (2 ^ 35) = [0x80, 0x80, 0x80, 0x80, 0x80, 0x01]"
    by (simp add: appendVarint.simps word_le_nat_alt)
next
  assume "\<forall>i. off \<le> i \<and> i < length data \<and> i < off + 10 \<longrightarrow> data ! i AND 0x80 \<noteq> 0"
  then show "readVarint data (int off) = Inr (0, -1)" by (rule readVarint_fail)
qed

theorem varint_roundtrip_witness:
  "readVarint [0xFF, 0x80] 0 = Inr (0, -1)
   \<and> readVarint [0x01, 0x80, 0x80, 0x80, 0x80, 0x80, 0x80, 0x80, 0x80, 0x80, 0x80, 0x01] 1 = Inr (0, -1)"
proof -
  have a: "\<forall>i. 0 \<le> i \<and> i < length [0xFF, 0x80 :: byte] \<and> i < 0 + 10 \<longrightarrow> [0xFF, 0x80 :: byte] ! i AND 0x80 \<noteq> 0"
  proof (intro allI impI)
    fix i :: nat assume "0 \<le> i \<and> i < length [0xFF, 0x80 :: byte] \<and> i < 0 + 10"
    then have "i \<in> {0, 1}" by auto
    then show "[0xFF, 0x80 :: byte] ! i AND 0x80 \<noteq> 0" by auto
  qed
  let ?d = "[0x01, 0x80, 0x80, 0x80, 0x80, 0x80, 0x80, 0x80, 0x80, 0x80, 0x80, 0x01 :: byte]"
  have b: "\<forall>i. 1 \<le> i \<and> i < length ?d \<and> i < 1 + 10 \<longrightarrow> ?d ! i AND 0x80 \<noteq> 0"
  proof (intro allI impI)
    fix i :: nat assume "1 \<le> i \<and> i < length ?d \<and> i < 1 + 10"
    then have "i = 1 \<or> i = 2 \<or> i = 3 \<or> i = 4 \<or> i = 5 \<or> i = 6 \<or> i = 7 \<or> i = 8 \<or> i = 9 \<or> i = 10"
      by simp arith
    then show "?d ! i AND 0x80 \<noteq> 0" by (elim disjE) simp_all
  qed
  from varint_roundtrip [where data = "[0xFF, 0x80]" and off = 0] a
  have 1: "readVarint [0xFF, 0x80] (int 0) = Inr (0, -1)" by blast
  from varint_roundtrip [where data = ?d and off = 1] b
  have 2: "readVarint ?d (int 1) = Inr (0, -1)" by blast
  from 1 2 show ?thesis by simp
qed








section \<open>Statistics: counting and averaging\<close>

lemma sumCounts_update:
  assumes "finite (dom m)"
  shows "sumCounts (m(k \<mapsto> v)) = v + (\<Sum>x \<in> dom m - {k}. the (m x))"
proof -
  have d: "dom (m(k \<mapsto> v)) = insert k (dom m - {k})" by auto
  have f: "finite (dom m - {k})" using assms by simp
  have 1: "sumCounts (m(k \<mapsto> v)) = (\<Sum>x \<in> insert k (dom m - {k}). the ((m(k \<mapsto> v)) x))"
    unfolding sumCounts_def d ..
  have 2: "(\<Sum>x \<in> insert k (dom m - {k}). the ((m(k \<mapsto> v)) x))
           = the ((m(k \<mapsto> v)) k) + (\<Sum>x \<in> dom m - {k}. the ((m(k \<mapsto> v)) x))"
    using f by (rule sum.insert) simp
  have 3: "(\<Sum>x \<in> dom m - {k}. the ((m(k \<mapsto> v)) x)) = (\<Sum>x \<in> dom m - {k}. the (m x))"
    by (rule sum.cong) auto
  show ?thesis unfolding 1 2 3 by simp
qed

lemma sumCounts_split:
  assumes "finite (dom m)"
  shows "sumCounts m = getCount m k + (\<Sum>x \<in> dom m - {k}. the (m x))"
proof (cases "m k")
  case None
  then have "dom m - {k} = dom m" by auto
  with None show ?thesis by (simp add: sumCounts_def getCount_def)
next
  case (Some c)
  then have "m = m(k \<mapsto> c)" by auto
  then have "sumCounts m = sumCounts (m(k \<mapsto> c))" by simp
  also have "\<dots> = c + (\<Sum>x \<in> dom m - {k}. the (m x))"
    using assms by (rule sumCounts_update)
  finally show ?thesis using Some by (simp add: getCount_def)
qed

lemma sumCounts_upd:
  assumes "finite (dom m)"
  shows "sumCounts (m(k \<mapsto> getCount m k + 1)) = sumCounts m + 1"
  using sumCounts_update [OF assms, of k "getCount m k + 1"] sumCounts_split [OF assms, of k]
  by simp

lemma statsInv_update: "statsInv s \<Longrightarrow> statsInv (updateStatistics fround s p)"
  by (simp add: statsInv_def updateStatistics_def sumCounts_upd)

lemma statsInv_new: "statsInv (NewClient_stats now)"
  by (simp add: statsInv_def NewClient_stats_def sumCounts_def)

lemma statsInv_recordAll: "statsInv s \<Longrightarrow> statsInv (recordAll fround s ps)"
  unfolding recordAll_def by (induction ps arbitrary: s) (simp_all add: statsInv_update)

lemma total_recordAll: "TotalPackets (recordAll fround s ps) = TotalPackets s + of_nat (length ps)"
  unfolding recordAll_def by (induction ps arbitrary: s) (simp_all add: updateStatistics_def)


text \<open>
  Claim C9. \<open>updateStatistics\<close> adds one to \<open>TotalPackets\<close>, to the count of the packet's type
  and to the count of the packet's channel, and leaves every other count alone. The counting
  invariant (each counter map sums to \<open>TotalPackets\<close>) holds for the statistics of a new
  client and is preserved by \<open>updateStatistics\<close>; so after any sequence of packets, each
  recorded once, both sums equal \<open>TotalPackets\<close>, which is the number of packets (all in
  \<open>uint64\<close> arithmetic).
\<close>

theorem stats_counting:
  "statsInv (NewClient_stats now)
   \<and> (statsInv s \<longrightarrow> statsInv (updateStatistics fround s p))
   \<and> TotalPackets (updateStatistics fround s p) = TotalPackets s + 1
   \<and> getCount (PacketsByType (updateStatistics fround s p)) (p_Type p) = getCount (PacketsByType s) (p_Type p) + 1
   \<and> (t \<noteq> p_Type p \<longrightarrow> PacketsByType (updateStatistics fround s p) t = PacketsByType s t)
   \<and> getCount (PacketsByChannel (updateStatistics fround s p)) (p_Channel p)
       = getCount (PacketsByChannel s) (p_Channel p) + 1
   \<and> (c \<noteq> p_Channel p \<longrightarrow> PacketsByChannel (updateStatistics fround s p) c = PacketsByChannel s c)
   \<and> TotalPackets (recordAll fround (NewClient_stats now) ps) = of_nat (length ps)
   \<and> sumCounts (PacketsByType (recordAll fround (NewClient_stats now) ps))
       = TotalPackets (recordAll fround (NewClient_stats now) ps)
   \<and> sumCounts (PacketsByChannel (recordAll fround (NewClient_stats now) ps))
       = TotalPackets (recordAll fround (NewClient_stats now) ps)"
proof -
  have inv: "statsInv (recordAll fround (NewClient_stats now) ps)"
    by (intro statsInv_recordAll statsInv_new)
  have tot: "TotalPackets (recordAll fround (NewClient_stats now) ps) = of_nat (length ps)"
    by (simp add: total_recordAll NewClient_stats_def)
  show ?thesis
    using inv tot statsInv_new [of now] statsInv_update [of s fround p]
    by (simp add: statsInv_def) (simp add: updateStatistics_def getCount_def)
qed

theorem stats_counting_witness:
  "statsInv (NewClient_stats 0)
   \<and> statsInv (updateStatistics Finite (NewClient_stats 0) (newPacket 0 [] :: (unit, unit) Packet))
   \<and> PacketsByType (updateStatistics Finite (NewClient_stats 0) (newPacket 0 [] :: (unit, unit) Packet))
        PacketTypeText = None
   \<and> PacketsByChannel (updateStatistics Finite (NewClient_stats 0) (newPacket 0 [] :: (unit, unit) Packet))
        7 = None"
proof -
  let ?p = "newPacket 0 [] :: (unit, unit) Packet"
  note t = stats_counting [where now = 0 and s = "NewClient_stats 0" and fround = Finite
      and p = ?p and t = PacketTypeText and c = 7 and ps = "[]"]
  have h: "statsInv (NewClient_stats 0)" using t by blast
  have 1: "statsInv (updateStatistics Finite (NewClient_stats 0) ?p)" using t h by blast
  have ty: "PacketTypeText \<noteq> p_Type ?p" by (simp add: newPacket_def)
  have ch: "7 \<noteq> p_Channel ?p" by (simp add: newPacket_def)
  have 2: "PacketsByType (updateStatistics Finite (NewClient_stats 0) ?p) PacketTypeText
           = PacketsByType (NewClient_stats 0) PacketTypeText"
    using t ty by blast
  have 3: "PacketsByChannel (updateStatistics Finite (NewClient_stats 0) ?p) 7
           = PacketsByChannel (NewClient_stats 0) 7"
    using t ch by blast
  show ?thesis using h 1 by (simp add: 2 3) (simp add: NewClient_stats_def)
qed

text \<open>
  Claim C5 (as amended). A zero sample leaves the running average unchanged. A non-zero
  sample sets the average to the sample when the average is zero (unset), and otherwise
  replaces it by the \<open>float32\<close> mean of the previous average and the sample: their sum,
  halved, in \<open>float32\<close> arithmetic. For finite operands on which both operations are exact
  that is the arithmetic mean. A not-a-number average or sample gives a not-a-number
  average, equal infinities give that infinity and opposite infinities a not-a-number. RSSI
  samples -80 then -90 give the averages -80 and -85.
\<close>

theorem stats_averaging:
  "(p_RxRSSI p = 0 \<longrightarrow> AverageRSSI (updateStatistics fround s p) = AverageRSSI s)
   \<and> (p_RxRSSI p \<noteq> 0 \<and> f32_eq0 (AverageRSSI s) \<longrightarrow>
        AverageRSSI (updateStatistics fround s p) = fround (real_of_int (sint (p_RxRSSI p))))
   \<and> (p_RxRSSI p \<noteq> 0 \<and> \<not> f32_eq0 (AverageRSSI s) \<longrightarrow>
        AverageRSSI (updateStatistics fround s p)
          = f32_div2 fround (f32_add fround (AverageRSSI s) (fround (real_of_int (sint (p_RxRSSI p))))))
   \<and> (f32_eq0 (p_RxSNR p) \<longrightarrow> AverageSNR (updateStatistics fround s p) = AverageSNR s)
   \<and> (\<not> f32_eq0 (p_RxSNR p) \<and> f32_eq0 (AverageSNR s) \<longrightarrow>
        AverageSNR (updateStatistics fround s p) = p_RxSNR p)
   \<and> (\<not> f32_eq0 (p_RxSNR p) \<and> \<not> f32_eq0 (AverageSNR s) \<longrightarrow>
        AverageSNR (updateStatistics fround s p) = f32_div2 fround (f32_add fround (AverageSNR s) (p_RxSNR p)))
   \<and> (a + b \<noteq> 0 \<and> fround (a + b) = Finite (a + b) \<and> fround ((a + b) / 2) = Finite ((a + b) / 2) \<longrightarrow>
        f32_div2 fround (f32_add fround (Finite a) (Finite b)) = Finite ((a + b) / 2))
   \<and> f32_div2 fround (f32_add fround (Finite a) (Finite (- a))) = Finite 0
   \<and> f32_div2 fround (f32_add fround NaN x) = NaN
   \<and> f32_div2 fround (f32_add fround x NaN) = NaN
   \<and> f32_div2 fround (f32_add fround PosInf PosInf) = PosInf
   \<and> f32_div2 fround (f32_add fround NegInf NegInf) = NegInf
   \<and> f32_div2 fround (f32_add fround PosInf NegInf) = NaN
   \<and> f32_div2 fround (f32_add fround NegInf PosInf) = NaN
   \<and> (fround (-80) = Finite (-80) \<and> fround (-90) = Finite (-90) \<and> fround (-170) = Finite (-170)
        \<and> fround (-85) = Finite (-85) \<and> p_RxRSSI pa = -80 \<and> p_RxRSSI pb = -90 \<longrightarrow>
        AverageRSSI (recordAll fround (NewClient_stats now) [pa]) = Finite (-80) \<and>
        AverageRSSI (recordAll fround (NewClient_stats now) [pa, pb]) = Finite (-85))"
proof (intro conjI impI)
  assume "a + b \<noteq> 0 \<and> fround (a + b) = Finite (a + b) \<and> fround ((a + b) / 2) = Finite ((a + b) / 2)"
  then show "f32_div2 fround (f32_add fround (Finite a) (Finite b)) = Finite ((a + b) / 2)"
    by (simp add: f32_div2_def f32_add_def f32_val_def)
next
  assume "fround (-80) = Finite (-80) \<and> fround (-90) = Finite (-90) \<and> fround (-170) = Finite (-170)
        \<and> fround (-85) = Finite (-85) \<and> p_RxRSSI pa = -80 \<and> p_RxRSSI pb = -90"
  then have f: "fround (-80) = Finite (-80)" "fround (-90) = Finite (-90)" "fround (-170) = Finite (-170)"
      "fround (-85) = Finite (-85)" and pa: "p_RxRSSI pa = -80" and pb: "p_RxRSSI pb = -90"
    by simp_all
  have 1: "AverageRSSI (updateStatistics fround (NewClient_stats now) pa) = Finite (-80)"
    by (simp add: updateStatistics_def NewClient_stats_def f32_eq0_def zero_float32_def
        float32_of_int32_def pa f)
  have 2: "f32_div2 fround (f32_add fround (Finite (-80)) (Finite (-90))) = Finite (-85)"
    by (simp add: f32_div2_def f32_add_def f32_val_def f)
  have 3: "AverageRSSI (updateStatistics fround (updateStatistics fround (NewClient_stats now) pa) pb)
           = f32_div2 fround (f32_add fround (Finite (-80)) (Finite (-90)))"
    unfolding updateStatistics_def [of fround _ pb]
    by (simp add: 1 f32_eq0_def float32_of_int32_def pb f)
  show "AverageRSSI (recordAll fround (NewClient_stats now) [pa]) = Finite (-80)"
    using 1 by (simp add: recordAll_def)
  show "AverageRSSI (recordAll fround (NewClient_stats now) [pa, pb]) = Finite (-85)"
    using 2 3 by (simp add: recordAll_def)
qed (simp_all add: updateStatistics_def float32_of_int32_def f32_div2_def f32_add_def f32_val_def)


theorem stats_averaging_witness:
  "AverageRSSI (recordAll Finite (NewClient_stats 0)
      [(newPacket 0 [] :: (unit, unit) Packet)\<lparr>p_RxRSSI := -80\<rparr>]) = Finite (-80)
   \<and> AverageRSSI (recordAll Finite (NewClient_stats 0)
      [(newPacket 0 [] :: (unit, unit) Packet)\<lparr>p_RxRSSI := -80\<rparr>, (newPacket 0 [])\<lparr>p_RxRSSI := -90\<rparr>])
       = Finite (-85)
   \<and> AverageSNR (updateStatistics Finite ((NewClient_stats 0)\<lparr>AverageSNR := Finite 4\<rparr>)
      ((newPacket 0 [] :: (unit, unit) Packet)\<lparr>p_RxSNR := Finite 6\<rparr>)) = Finite 5
   \<and> AverageSNR (updateStatistics Finite ((NewClient_stats 0)\<lparr>AverageSNR := Finite 4\<rparr>)
      (newPacket 0 [] :: (unit, unit) Packet)) = Finite 4
   \<and> AverageSNR (updateStatistics Finite (NewClient_stats 0)
      ((newPacket 0 [] :: (unit, unit) Packet)\<lparr>p_RxSNR := Finite 6\<rparr>)) = Finite 6
   \<and> AverageRSSI (updateStatistics Finite (NewClient_stats 0)
      (newPacket 0 [] :: (unit, unit) Packet)) = Finite 0
   \<and> AverageRSSI (updateStatistics Finite ((NewClient_stats 0)\<lparr>AverageRSSI := Finite (-60)\<rparr>)
      ((newPacket 0 [] :: (unit, unit) Packet)\<lparr>p_RxRSSI := -80\<rparr>)) = Finite (-70)"
proof -
  let ?n = "newPacket 0 [] :: (unit, unit) Packet"
  let ?pa = "?n\<lparr>p_RxRSSI := -80\<rparr>"
  let ?pb = "?n\<lparr>p_RxRSSI := -90\<rparr>"
  let ?s = "(NewClient_stats 0)\<lparr>AverageSNR := Finite 4\<rparr>"
  let ?r = "(NewClient_stats 0)\<lparr>AverageRSSI := Finite (-60)\<rparr>"
  let ?q = "?n\<lparr>p_RxSNR := Finite 6\<rparr>"
  have 1: "AverageRSSI (recordAll Finite (NewClient_stats 0) [?pa]) = Finite (-80)
           \<and> AverageRSSI (recordAll Finite (NewClient_stats 0) [?pa, ?pb]) = Finite (-85)"
    using stats_averaging [where fround = Finite and pa = ?pa and pb = ?pb and now = 0
        and s = "NewClient_stats 0" and p = ?pa and a = 4 and b = 6 and x = NaN] by simp
  have m: "f32_div2 Finite (f32_add Finite (Finite 4) (Finite 6)) = Finite ((4 + 6) / 2)"
    using stats_averaging [where fround = Finite and s = ?s and p = ?q and pa = ?pa and pb = ?pb
        and now = 0 and a = 4 and b = 6 and x = NaN] by simp
  have 2: "AverageSNR (updateStatistics Finite ?s ?q)
           = f32_div2 Finite (f32_add Finite (AverageSNR ?s) (p_RxSNR ?q))"
    using stats_averaging [where fround = Finite and s = ?s and p = ?q and pa = ?pa and pb = ?pb
        and now = 0 and a = 4 and b = 6 and x = NaN] by (simp add: NewClient_stats_def f32_eq0_def zero_float32_def)
  have 3: "AverageSNR (updateStatistics Finite ?s ?n) = AverageSNR ?s"
    using stats_averaging [where fround = Finite and s = ?s and p = ?n
        and pa = ?pa and pb = ?pb and now = 0 and a = 4 and b = 6 and x = NaN]
    by (simp add: newPacket_def f32_eq0_def zero_float32_def)
  have 4: "AverageSNR (updateStatistics Finite (NewClient_stats 0) ?q) = p_RxSNR ?q"
    using stats_averaging [where fround = Finite and s = "NewClient_stats 0" and p = ?q
        and pa = ?pa and pb = ?pb and now = 0 and a = 4 and b = 6 and x = NaN]
    by (simp add: NewClient_stats_def f32_eq0_def zero_float32_def)
  have 5: "AverageRSSI (updateStatistics Finite (NewClient_stats 0) ?n) = AverageRSSI (NewClient_stats 0)"
    using stats_averaging [where fround = Finite and s = "NewClient_stats 0" and p = ?n
        and pa = ?pa and pb = ?pb and now = 0 and a = 4 and b = 6 and x = NaN]
    by (simp add: newPacket_def)
  have m': "f32_div2 Finite (f32_add Finite (Finite (-60)) (Finite (-80))) = Finite ((-60 + -80) / 2)"
    using stats_averaging [where fround = Finite and s = ?r and p = ?pa and pa = ?pa and pb = ?pb
        and now = 0 and a = "-60" and b = "-80" and x = NaN] by simp
  have 6: "AverageRSSI (updateStatistics Finite ?r ?pa)
           = f32_div2 Finite (f32_add Finite (AverageRSSI ?r) (Finite (real_of_int (sint (p_RxRSSI ?pa)))))"
    using stats_averaging [where fround = Finite and s = ?r and p = ?pa and pa = ?pa and pb = ?pb
        and now = 0 and a = "-60" and b = "-80" and x = NaN] by (simp add: f32_eq0_def)
  show ?thesis using 1 2 3 4 5 6 m m' by (simp add: NewClient_stats_def zero_float32_def)
qed

text \<open>
  Claim C5 as stated fails when the average returns to zero: zero is the "unset" mark, so
  after samples that cancel (80 then -80; 5.5 then -5.5) the next sample is taken as it is
  instead of being averaged with the previous average 0. Every number here is exactly
  representable in \<open>float32\<close>, so rounding is exact on them.
\<close>

theorem stats_averaging_counterexample:
  "AverageRSSI (recordAll Finite (NewClient_stats 0)
      [(newPacket 0 [] :: (unit, unit) Packet)\<lparr>p_RxRSSI := 80\<rparr>, (newPacket 0 [])\<lparr>p_RxRSSI := -80\<rparr>])
     = Finite 0
   \<and> AverageRSSI (recordAll Finite (NewClient_stats 0)
      [(newPacket 0 [] :: (unit, unit) Packet)\<lparr>p_RxRSSI := 80\<rparr>, (newPacket 0 [])\<lparr>p_RxRSSI := -80\<rparr>,
       (newPacket 0 [])\<lparr>p_RxRSSI := -90\<rparr>]) = Finite (-90)
   \<and> (0 + (-90)) / 2 \<noteq> (-90 :: real)
   \<and> AverageSNR (recordAll Finite (NewClient_stats 0)
      [(newPacket 0 [] :: (unit, unit) Packet)\<lparr>p_RxSNR := Finite 5.5\<rparr>, (newPacket 0 [])\<lparr>p_RxSNR := Finite (-5.5)\<rparr>,
       (newPacket 0 [])\<lparr>p_RxSNR := Finite 3\<rparr>]) = Finite 3"
  by (simp add: updateStatistics_def recordAll_def NewClient_stats_def newPacket_def f32_eq0_def
      float32_of_int32_def f32_div2_def f32_add_def f32_val_def zero_float32_def)


section \<open>Bounded queue\<close>

lemma trySend_length: "length packets \<le> packetsCap \<Longrightarrow> length (fst (trySend packets p)) \<le> packetsCap"
  by (simp add: trySend_def)

lemma handleRawData_length:
  "length packets \<le> packetsCap \<Longrightarrow> length (handleRawData pj pf pr tp packets data) \<le> packetsCap"
  by (simp add: handleRawData_def handleTextData_def trySend_length split: option.splits)

lemma receive_length: "length packets \<le> packetsCap \<Longrightarrow> length (receive packets) \<le> packetsCap"
  by (simp add: receive_def)

lemma runQueue_length:
  "length packets \<le> packetsCap \<Longrightarrow> length (runQueue pj pf pr tp packets events) \<le> packetsCap"
proof (induction events arbitrary: packets)
  case Nil
  then show ?case by simp
next
  case (Cons e events)
  then show ?case
    by (cases e) (simp_all add: handleRawData_length receive_length)
qed

text \<open>
  Claim C6. The packet queue has capacity 100. Sending to a queue with room appends the
  packet; sending to a full queue drops the packet and leaves the queue as it was, so
  \<open>handleRawData\<close> on a full queue returns it unchanged. \<open>handleRawData\<close> never takes the
  queue above 100 packets, and after any interleaving of submitted chunks and receives,
  starting from the empty queue of a new client, the queue holds at most 100 packets. The
  send is a total function of the queue and the packet: there is no state in which it waits.
\<close>

theorem queue_backpressure:
  "packetsCap = 100
   \<and> (length packets < 100 \<longrightarrow> trySend packets p = (packets @ [p], True))
   \<and> (length packets = 100 \<longrightarrow> trySend packets p = (packets, False))
   \<and> (length packets = 100 \<longrightarrow> handleRawData pj pf pr tp packets data = packets)
   \<and> (length packets \<le> 100 \<longrightarrow> length (handleRawData pj pf pr tp packets data) \<le> 100)
   \<and> length (runQueue pj pf pr tp NewClient_packets events) \<le> 100"
proof -
  have "length (runQueue pj pf pr tp NewClient_packets events) \<le> packetsCap"
    by (rule runQueue_length) (simp add: NewClient_packets_def)
  moreover have "length packets \<le> 100 \<longrightarrow> length (handleRawData pj pf pr tp packets data) \<le> 100"
    using handleRawData_length [of packets pj pf pr tp data] by (simp add: packetsCap_def)
  moreover have "length packets = 100 \<longrightarrow> handleRawData pj pf pr tp packets data = packets"
    by (simp add: handleRawData_def handleTextData_def trySend_def packetsCap_def split: option.splits)
  ultimately show ?thesis
    by (simp add: trySend_def packetsCap_def)
qed

theorem queue_backpressure_witness:
  "handleRawData (\<lambda>d. None) (\<lambda>d. None) (\<lambda>d. Some d) (\<lambda>d. None) (replicate 100 [0x01]) [0x02]
     = replicate 100 [0x01]
   \<and> trySend (replicate 99 [0x01 :: byte]) [0x02] = (replicate 99 [0x01] @ [[0x02]], True)
   \<and> length (handleRawData (\<lambda>d. None) (\<lambda>d. None) (\<lambda>d. Some d) (\<lambda>d. None) (replicate 99 [0x01]) [0x02]) \<le> 100"
proof -
  have 1: "handleRawData (\<lambda>d. None) (\<lambda>d. None) (\<lambda>d. Some d) (\<lambda>d. None) (replicate 100 [0x01]) [0x02]
     = replicate 100 [0x01]"
    using queue_backpressure [where packets = "replicate 100 [0x01]" and pj = "\<lambda>d. None"
        and pf = "\<lambda>d. None" and pr = "\<lambda>d. Some d" and tp = "\<lambda>d. None" and data = "[0x02]"
        and p = "[0x02]" and events = "[]"]
    by (simp add: packetsCap_def)
  have 2: "trySend (replicate 99 [0x01 :: byte]) [0x02] = (replicate 99 [0x01] @ [[0x02]], True)
     \<and> length (handleRawData (\<lambda>d. None) (\<lambda>d. None) (\<lambda>d. Some d) (\<lambda>d. None) (replicate 99 [0x01]) [0x02]) \<le> 100"
    using queue_backpressure [where packets = "replicate 99 [0x01]" and pj = "\<lambda>d. None"
        and pf = "\<lambda>d. None" and pr = "\<lambda>d. Some d" and tp = "\<lambda>d. None" and data = "[0x02]"
        and p = "[0x02]" and events = "[]"]
    by (simp add: packetsCap_def)
  from 1 2 show ?thesis by simp
qed


section \<open>Name resolution\<close>

lemma dropWhile_id: "xs \<noteq> [] \<Longrightarrow> \<not> P (hd xs) \<Longrightarrow> dropWhile P xs = xs"
  by (cases xs) simp_all

lemma trimSpaces_plain:
  assumes "s \<noteq> []" "hd s \<noteq> CHR '' ''" "last s \<noteq> CHR '' ''"
  shows "trimSpaces s = s"
proof -
  have 1: "dropWhile (\<lambda>c. c = CHR '' '') s = s"
    using assms by (intro dropWhile_id) simp_all
  have 2: "dropWhile (\<lambda>c. c = CHR '' '') (rev s) = rev s"
    using assms by (intro dropWhile_id) (simp_all add: hd_rev)
  show ?thesis by (simp add: trimSpaces_def 1 2)
qed

lemma Sanitize_plain: "plainName s \<Longrightarrow> SanitizeForTerminal su s = s"
proof -
  assume p: "plainName s"
  then have a: "isASCII s" by (auto simp: plainName_def isASCII_def)
  have f: "filter (\<lambda>c. \<not> ((of_char c :: nat) < 32 \<or> (of_char c :: nat) = 127)) s = s"
    using p by (auto simp: plainName_def filter_id_conv)
  have t: "trimSpaces s = s"
    using p by (intro trimSpaces_plain) (simp_all add: plainName_def)
  have ne: "s \<noteq> []" using p by (simp add: plainName_def)
  show ?thesis unfolding SanitizeForTerminal_def f using a ne t by simp
qed

lemma hexNodeID_0: "hexNodeID 0 = ''!00000000''"
  by (simp add: hexNodeID_def hexDigit_def upt_rec)

text \<open>
  Claim C7 (as amended). For a node id absent from the directory both resolvers return the
  hexadecimal fallback. For a record, \<open>GetNodeName\<close> returns the sanitized long name if the
  long name is not empty, else the sanitized short name if that is not empty, else the id
  string if not empty, else the fallback; \<open>GetNodeShortName\<close> returns the sanitized short
  name if not empty, else the first 8 bytes of the sanitized long name, else the fallback.
  Sanitizing leaves a plain name (printable ASCII, no space at either end) as it is, so for
  plain names the resolvers return the stored names themselves. The fallback is \<open>!\<close> and
  eight hexadecimal digits: \<open>Alice\<close> resolves to \<open>Alice\<close>, and an all-empty record at node 0
  to \<open>!00000000\<close>.
\<close>

theorem name_resolution:
  "(nodes db nodeID = None \<longrightarrow>
      GetNodeName su db nodeID = hexNodeID nodeID \<and> GetNodeShortName su db nodeID = hexNodeID nodeID)
   \<and> (nodes db nodeID = Some node \<longrightarrow>
        GetNodeName su db nodeID =
          (if n_LongName node \<noteq> [] then SanitizeForTerminal su (n_LongName node)
           else if n_ShortName node \<noteq> [] then SanitizeForTerminal su (n_ShortName node)
           else if n_ID node \<noteq> [] then n_ID node
           else hexNodeID nodeID)
        \<and> GetNodeShortName su db nodeID =
          (if n_ShortName node \<noteq> [] then SanitizeForTerminal su (n_ShortName node)
           else if n_LongName node \<noteq> [] then take 8 (SanitizeForTerminal su (n_LongName node))
           else hexNodeID nodeID))
   \<and> (plainName name \<longrightarrow> SanitizeForTerminal su name = name)
   \<and> (plainName longName \<longrightarrow>
        GetNodeName su (AddOrUpdateUserInfo db nodeID ident longName shortName) nodeID = longName)
   \<and> (plainName shortName \<longrightarrow>
        GetNodeName su (AddOrUpdateUserInfo db nodeID ident [] shortName) nodeID = shortName
        \<and> GetNodeShortName su (AddOrUpdateUserInfo db nodeID ident longName shortName) nodeID = shortName)
   \<and> (plainName longName \<longrightarrow>
        GetNodeShortName su (AddOrUpdateUserInfo db nodeID ident longName []) nodeID = take 8 longName)
   \<and> (ident \<noteq> [] \<longrightarrow> GetNodeName su (AddOrUpdateUserInfo db nodeID ident [] []) nodeID = ident)
   \<and> GetNodeName su (AddOrUpdateUserInfo db nodeID [] [] []) nodeID = hexNodeID nodeID
   \<and> GetNodeShortName su (AddOrUpdateUserInfo db nodeID ident [] []) nodeID = hexNodeID nodeID
   \<and> length (hexNodeID nodeID) = 9
   \<and> GetNodeName su (AddOrUpdateUserInfo db nodeID ident ''Alice'' []) nodeID = ''Alice''
   \<and> GetNodeName su (AddOrUpdateUserInfo db 0 [] [] []) 0 = ''!00000000''
   \<and> GetNodeShortName su (AddOrUpdateUserInfo db 0 [] [] []) 0 = ''!00000000''"
proof -
  have alice: "plainName ''Alice''" by (simp add: plainName_def)
  have pn: "\<And>s. plainName s \<Longrightarrow> s \<noteq> []" by (simp add: plainName_def)
  show ?thesis
    using pn [of longName] pn [of shortName]
    by (auto simp add: GetNodeName_def GetNodeShortName_def AddOrUpdateUserInfo_def Sanitize_plain
        Sanitize_plain [OF alice] hexNodeID_0 Let_def)
      (simp_all add: hexNodeID_def)
qed

text \<open>
  Claim C7 as stated fails: the resolvers return the name after \<open>SanitizeForTerminal\<close>, not
  the stored name. A long name with a leading space loses it; a long name of one space
  resolves to the empty string although a short name is stored; and the 8-byte cut is taken
  after sanitizing.
\<close>

theorem name_resolution_counterexample:
  "GetNodeName (\<lambda>s. s) (AddOrUpdateUserInfo NewNodeDB 7 [] '' Bob'' []) 7 = ''Bob''
   \<and> GetNodeName (\<lambda>s. s) (AddOrUpdateUserInfo NewNodeDB 7 [] '' '' ''SN'') 7 = []
   \<and> GetNodeShortName (\<lambda>s. s) (AddOrUpdateUserInfo NewNodeDB 7 [] ''  Alice Wonderland'' []) 7 = ''Alice Wo''"
  by (simp add: GetNodeName_def GetNodeShortName_def AddOrUpdateUserInfo_def NewNodeDB_def
      SanitizeForTerminal_def isASCII_def trimSpaces_def)


theorem name_resolution_witness:
  "GetNodeName (\<lambda>s. s) (AddOrUpdateUserInfo NewNodeDB 7 ''!00000007'' ''Alice Wonderland'' ''AW'') 7
     = ''Alice Wonderland''
   \<and> GetNodeShortName (\<lambda>s. s) (AddOrUpdateUserInfo NewNodeDB 7 ''!00000007'' ''Alice Wonderland'' ''AW'') 7
     = ''AW''
   \<and> GetNodeShortName (\<lambda>s. s) (AddOrUpdateUserInfo NewNodeDB 7 ''!00000007'' ''Alice Wonderland'' []) 7
     = ''Alice Wo''
   \<and> GetNodeName (\<lambda>s. s) (AddOrUpdateUserInfo NewNodeDB 7 ''!00000007'' [] []) 7 = ''!00000007''
   \<and> GetNodeName (\<lambda>s. s) NewNodeDB 7 = hexNodeID 7"
proof -
  have l: "plainName ''Alice Wonderland''" by (simp add: plainName_def)
  have sh: "plainName ''AW''" by (simp add: plainName_def)
  have i: "''!00000007'' \<noteq> []" by simp
  have e: "nodes NewNodeDB 7 = None" by (simp add: NewNodeDB_def)
  note t = name_resolution [where su = "\<lambda>s. s" and db = NewNodeDB and nodeID = 7
      and ident = "''!00000007''" and longName = "''Alice Wonderland''" and shortName = "''AW''"]
  have 1: "GetNodeName (\<lambda>s. s) (AddOrUpdateUserInfo NewNodeDB 7 ''!00000007'' ''Alice Wonderland'' ''AW'') 7
     = ''Alice Wonderland''" using t l by blast
  have 2: "GetNodeShortName (\<lambda>s. s) (AddOrUpdateUserInfo NewNodeDB 7 ''!00000007'' ''Alice Wonderland'' ''AW'') 7
     = ''AW''" using t sh by blast
  have 3: "GetNodeShortName (\<lambda>s. s) (AddOrUpdateUserInfo NewNodeDB 7 ''!00000007'' ''Alice Wonderland'' []) 7
     = take 8 ''Alice Wonderland''" using t l by blast
  have 4: "GetNodeName (\<lambda>s. s) (AddOrUpdateUserInfo NewNodeDB 7 ''!00000007'' [] []) 7 = ''!00000007''"
    using t i by blast
  have 5: "GetNodeName (\<lambda>s. s) NewNodeDB 7 = hexNodeID 7" using t e by blast
  show ?thesis using 1 2 3 4 5 by simp
qed


section \<open>The legacy binary parser on a bare header\<close>

lemma cff: "(0xFF::'a::len word) = mask 8" by (simp add: mask_eq_exp_minus_1)

lemma le32_bytes:
  "ucast (drop_bit 0 (LittleEndian_Uint32 b) AND 0xFF) = b ! 0"
  "ucast (drop_bit 8 (LittleEndian_Uint32 b) AND 0xFF) = b ! 1"
  "ucast (drop_bit 16 (LittleEndian_Uint32 b) AND 0xFF) = b ! 2"
  "ucast (drop_bit 24 (LittleEndian_Uint32 b) AND 0xFF) = b ! 3"
  unfolding LittleEndian_Uint32_def cff
  by (rule bit_eqI; auto simp add: bit_simps dest: bit_imp_le_length)+

lemma le32_byte0: "ucast (LittleEndian_Uint32 b AND 0xFF) = b ! 0"
  using le32_bytes(1) [of b] by simp

lemma ParseRawPacket_16:
  assumes "length data = 16"
  shows "ParseRawPacket now infer pp pt stats data =
     Some (Inr (Inr \<lparr>p_ID = LittleEndian_Uint32 (take 4 data),
                      p_From = LittleEndian_Uint32 (take 4 (drop 4 data)),
                      p_To = LittleEndian_Uint32 (take 4 (drop 8 data)),
                      p_Type = PacketTypeUnknown,
                      p_Channel = data ! 12, p_HopCount = data ! 13, p_HopLimit = data ! 14,
                      p_WantAck = False, p_Priority = data ! 15,
                      p_RxTime = now, p_RxSNR = 0, p_RxRSSI = 0,
                      p_Payload = [], p_DecodedData = None, p_Raw = data\<rparr>, stats))"
  using assms by (simp add: ParseRawPacket_def newPacket_def Let_def le32_bytes le32_byte0)

lemma ParseRawPacket_long:
  assumes "length data > 16"
    and "ParseRawPacket now infer pp pt stats data = Some (Inr (r, stats'))"
  shows "stats' = IncrementPacketType stats (infer (drop 16 data))
         \<and> (\<exists>packet. r = Inr packet \<and> p_Type packet = infer (drop 16 data)
               \<and> p_Payload packet = drop 16 data)"
  using assms
  by (auto simp add: ParseRawPacket_def Let_def split: option.splits sum.splits)

lemma byte_or_push: "uint (a::byte) OR push_bit 8 k = uint a + 2 ^ 8 * k"
proof -
  have "uint a < 2 ^ 8" using uint_bounded [of a] by simp
  then have t: "take_bit 8 (uint a) = uint a" by (simp add: take_bit_int_eq_self)
  have "take_bit 8 (uint a) AND push_bit 8 k = 0"
    by (simp add: bit_eq_iff bit_simps)
  then have "take_bit 8 (uint a) + push_bit 8 k = take_bit 8 (uint a) OR push_bit 8 k"
    by (rule disjunctive_add_eq_or)
  then show ?thesis by (simp add: t push_bit_eq_mult)
qed

lemma le32_nested:
  "uint (LittleEndian_Uint32 [a, b, c, d])
     = uint a OR push_bit 8 (uint b OR push_bit 8 (uint c OR push_bit 8 (uint d)))"
  unfolding LittleEndian_Uint32_def
  by (rule bit_eqI) (auto simp add: bit_simps dest: bit_imp_le_length)

lemma le32_value:
  "uint (LittleEndian_Uint32 [a, b, c, d])
     = uint a + 2 ^ 8 * uint b + 2 ^ 16 * uint c + 2 ^ 24 * uint d"
  by (simp add: le32_nested byte_or_push)


text \<open>
  Claim C10. On an input of exactly 16 bytes \<open>ParseRawPacket\<close> returns no error and a packet
  whose id, sender and destination are the little-endian words of bytes 0-3, 4-7 and 8-11,
  whose channel, hop count, hop limit and priority are bytes 12, 13, 14 and 15 (the flags
  word read little-endian), whose payload is empty, whose type is \<open>PacketTypeUnknown\<close> and
  whose decoded data is absent; the global counter is returned unchanged. When the input
  is longer than 16 bytes and the parser returns, the counter has been incremented once,
  for the inferred type. A shorter input is an error and leaves the counter unchanged.
\<close>

theorem parse_raw_packet_16:
  "(length data = 16 \<longrightarrow>
      ParseRawPacket now infer pp pt stats data =
        Some (Inr (Inr \<lparr>p_ID = LittleEndian_Uint32 (take 4 data),
                         p_From = LittleEndian_Uint32 (take 4 (drop 4 data)),
                         p_To = LittleEndian_Uint32 (take 4 (drop 8 data)),
                         p_Type = PacketTypeUnknown,
                         p_Channel = data ! 12, p_HopCount = data ! 13, p_HopLimit = data ! 14,
                         p_WantAck = False, p_Priority = data ! 15,
                         p_RxTime = now, p_RxSNR = 0, p_RxRSSI = 0,
                         p_Payload = [], p_DecodedData = None, p_Raw = data\<rparr>, stats)))
   \<and> uint (LittleEndian_Uint32 [a, b, c, d])
        = uint a + 2 ^ 8 * uint b + 2 ^ 16 * uint c + 2 ^ 24 * uint d
   \<and> (length data > 16 \<and> ParseRawPacket now infer pp pt stats data = Some (Inr (r, stats')) \<longrightarrow>
        stats' = IncrementPacketType stats (infer (drop 16 data))
        \<and> total stats' = int64 (total stats + 1))
   \<and> (length data < 16 \<longrightarrow>
        ParseRawPacket now infer pp pt stats data
          = Some (Inr (Inl (PacketTooShort (length data)), stats)))"
proof (intro conjI impI)
  assume "length data = 16"
  then show "ParseRawPacket now infer pp pt stats data =
        Some (Inr (Inr \<lparr>p_ID = LittleEndian_Uint32 (take 4 data),
                         p_From = LittleEndian_Uint32 (take 4 (drop 4 data)),
                         p_To = LittleEndian_Uint32 (take 4 (drop 8 data)),
                         p_Type = PacketTypeUnknown,
                         p_Channel = data ! 12, p_HopCount = data ! 13, p_HopLimit = data ! 14,
                         p_WantAck = False, p_Priority = data ! 15,
                         p_RxTime = now, p_RxSNR = 0, p_RxRSSI = 0,
                         p_Payload = [], p_DecodedData = None, p_Raw = data\<rparr>, stats))"
    by (rule ParseRawPacket_16)
next
  show "uint (LittleEndian_Uint32 [a, b, c, d])
        = uint a + 2 ^ 8 * uint b + 2 ^ 16 * uint c + 2 ^ 24 * uint d"
    by (rule le32_value)
next
  assume a: "length data > 16 \<and> ParseRawPacket now infer pp pt stats data = Some (Inr (r, stats'))"
  then show s: "stats' = IncrementPacketType stats (infer (drop 16 data))"
    using ParseRawPacket_long [of data now infer pp pt stats r stats'] by blast
  show "total stats' = int64 (total stats + 1)"
    unfolding s by (simp add: IncrementPacketType_def)
next
  assume "length data < 16"
  then show "ParseRawPacket now infer pp pt stats data
          = Some (Inr (Inl (PacketTooShort (length data)), stats))"
    by (simp add: ParseRawPacket_def)
qed

theorem parse_raw_packet_16_witness:
  "ParseRawPacket 7 (\<lambda>_. PacketTypeText) (\<lambda>_. None :: unit option) (\<lambda>_. None :: unit option)
      \<lparr>counts = Map.empty, total = 0\<rparr>
      [0x01, 0x02, 0x03, 0x04, 0x05, 0x06, 0x07, 0x08, 0x09, 0x0A, 0x0B, 0x0C, 0x0D, 0x0E, 0x0F, 0x10]
    = Some (Inr (Inr \<lparr>p_ID = 0x04030201, p_From = 0x08070605, p_To = 0x0C0B0A09,
                      p_Type = PacketTypeUnknown,
                      p_Channel = 0x0D, p_HopCount = 0x0E, p_HopLimit = 0x0F,
                      p_WantAck = False, p_Priority = 0x10,
                      p_RxTime = 7, p_RxSNR = 0, p_RxRSSI = 0,
                      p_Payload = [], p_DecodedData = None,
                      p_Raw = [0x01, 0x02, 0x03, 0x04, 0x05, 0x06, 0x07, 0x08, 0x09, 0x0A, 0x0B,
                               0x0C, 0x0D, 0x0E, 0x0F, 0x10]\<rparr>,
                 \<lparr>counts = Map.empty, total = 0\<rparr>))
   \<and> total (snd (projr (the (ParseRawPacket 7 (\<lambda>_. PacketTypeText) (\<lambda>_. None :: unit option)
        (\<lambda>_. None :: unit option) \<lparr>counts = Map.empty, total = 0\<rparr>
        [0x01, 0x02, 0x03, 0x04, 0x05, 0x06, 0x07, 0x08, 0x09, 0x0A, 0x0B, 0x0C, 0x0D, 0x0E, 0x0F, 0x10,
         0x41])))) = 1
   \<and> ParseRawPacket 7 (\<lambda>_. PacketTypeText) (\<lambda>_. None :: unit option) (\<lambda>_. None :: unit option)
        \<lparr>counts = Map.empty, total = 0\<rparr> [0x01, 0x02]
       = Some (Inr (Inl (PacketTooShort 2), \<lparr>counts = Map.empty, total = 0\<rparr>))"
proof -
  let ?d = "[0x01, 0x02, 0x03, 0x04, 0x05, 0x06, 0x07, 0x08, 0x09, 0x0A, 0x0B, 0x0C, 0x0D, 0x0E, 0x0F, 0x10] :: byte list"
  let ?e = "[0x01, 0x02, 0x03, 0x04, 0x05, 0x06, 0x07, 0x08, 0x09, 0x0A, 0x0B, 0x0C, 0x0D, 0x0E, 0x0F, 0x10, 0x41] :: byte list"
  let ?s = "\<lparr>counts = Map.empty, total = 0\<rparr>"
  let ?P = "ParseRawPacket 7 (\<lambda>_. PacketTypeText) (\<lambda>_. None :: unit option) (\<lambda>_. None :: unit option) ?s"
  have 1: "?P ?d = Some (Inr (Inr \<lparr>p_ID = LittleEndian_Uint32 (take 4 ?d),
                         p_From = LittleEndian_Uint32 (take 4 (drop 4 ?d)),
                         p_To = LittleEndian_Uint32 (take 4 (drop 8 ?d)),
                         p_Type = PacketTypeUnknown,
                         p_Channel = ?d ! 12, p_HopCount = ?d ! 13, p_HopLimit = ?d ! 14,
                         p_WantAck = False, p_Priority = ?d ! 15,
                         p_RxTime = 7, p_RxSNR = 0, p_RxRSSI = 0,
                         p_Payload = [], p_DecodedData = None, p_Raw = ?d\<rparr>, ?s))"
    using parse_raw_packet_16 [where data = ?d and now = 7 and infer = "\<lambda>_. PacketTypeText"
        and pp = "\<lambda>_. None :: unit option" and pt = "\<lambda>_. None :: unit option" and stats = ?s
        and a = 0 and b = 0 and c = 0 and d = 0 and r = undefined and stats' = undefined]
    by simp
  obtain r st where e: "?P (?e) = Some (Inr (r, st))"
    by (simp add: ParseRawPacket_def decodePayload_def Let_def)
  have l: "length ?e > 16" by simp
  have "total st = int64 (total ?s + 1)"
    using parse_raw_packet_16 [where data = "?e" and now = 7 and infer = "\<lambda>_. PacketTypeText"
        and pp = "\<lambda>_. None :: unit option" and pt = "\<lambda>_. None :: unit option" and stats = ?s
        and a = 0 and b = 0 and c = 0 and d = 0 and r = r and stats' = st] e l
    by blast
  then have 2: "total (snd (projr (the (?P ?e)))) = 1"
    unfolding e by (simp add: int64_def)
  have 3: "?P [0x01, 0x02] = Some (Inr (Inl (PacketTooShort 2), ?s))"
    using parse_raw_packet_16 [where data = "[0x01, 0x02]" and now = 7 and infer = "\<lambda>_. PacketTypeText"
        and pp = "\<lambda>_. None :: unit option" and pt = "\<lambda>_. None :: unit option" and stats = ?s
        and a = 0 and b = 0 and c = 0 and d = 0 and r = undefined and stats' = undefined]
    by simp
  show ?thesis using 1 2 3 by (simp add: LittleEndian_Uint32_def)
qed


(*C2PROOFS*)

end
